theory Spec2Isabelle
  imports Main "HOL-Library.Word" "HOL-Library.Monad_Syntax"
begin

unbundle bit_operations_syntax

section \<open>Machine types\<close>

type_synonym u8 = "8 word"
type_synonym u32 = "32 word"
type_synonym u64 = "64 word"

text \<open>
  \<open>s32\<close> is the C \<open>int\<close> of the source: a 32-bit word read in two's complement
  (\<open>sint\<close>) wherever its sign matters.
\<close>

type_synonym s32 = "32 word"
type_synonym s64 = "64 word"

section \<open>The header parser (ajm\_mp3.cpp, lines 15--27 and 128--147)\<close>

subsection \<open>The reversed lookup tables\<close>

definition SamplerateTable :: "s32 list list" where
  "SamplerateTable =
     [[0x5622, 0x5DC0, 0x3E80],
      [0xAC44, 0xBB80, 0x7D00],
      [0x2B11, 0x2EE0, 0x1F40]]"

definition BitrateTable :: "s32 list list" where
  "BitrateTable =
     [[0, 0x20, 0x28, 0x30, 0x38, 0x40, 0x50, 0x60, 0x70, 0x80, 0xA0, 0xC0, 0xE0, 0x100, 0x140],
      [0, 0x8, 0x10, 0x18, 0x20, 0x28, 0x30, 0x38, 0x40, 0x50, 0x60, 0x70, 0x80, 0x90, 0xA0]]"

definition UnkTable :: "s32 list" where
  "UnkTable = [0x48, 0x90]"

text \<open>
  \<open>std::array::operator[]\<close> and a read through a \<open>const u8*\<close> have no defined
  result outside the array: the model returns \<open>None\<close> there, and the whole call
  fails with it.
\<close>

definition at :: "'a list \<Rightarrow> nat \<Rightarrow> 'a option" where
  "at xs i = (if i < length xs then Some (xs ! i) else None)"

subsection \<open>The output structure\<close>

text \<open>
  Modelled from the spec: the declaration of \<open>AjmDecMp3ParseFrame\<close> lives in
  ajm\_mp3.h, which is not part of the source tree. The fields are the six that
  \<open>ParseMp3Header\<close> assigns, with the widths of the spec's FrameHeader record.
\<close>

record AjmDecMp3ParseFrame =
  sample_rate :: u32
  bitrate :: u32
  num_channels :: u8
  frame_size :: u32
  samples_per_channel :: u32
  encoder_delay :: u32

subsection \<open>The index computations of lines 130--134\<close>

text \<open>
  In C, \<open>buf[1] >> 3 & 1\<close> parses as \<open>(buf[1] >> 3) & 1\<close>; the byte is promoted to a
  32-bit integer first.
\<close>

definition unk_idx :: "u8 \<Rightarrow> u32" where
  "unk_idx b1 = drop_bit 3 (ucast b1) AND 1"

definition version_idx :: "u8 \<Rightarrow> s32" where
  "version_idx b1 = (drop_bit 3 (ucast b1) AND 3) XOR 2"

definition sr_idx :: "u8 \<Rightarrow> s32" where
  "sr_idx b2 = drop_bit 2 (ucast b2) AND 3"

definition br_idx :: "u8 \<Rightarrow> s32" where
  "br_idx b2 = drop_bit 4 (ucast b2) AND 0xf"

definition padding_bit :: "u8 \<Rightarrow> s32" where
  "padding_bit b2 = drop_bit 1 (ucast b2) AND 0x1"

text \<open>
  Line 139. The product and the quotient are computed on 32-bit unsigned operands
  (the \<open>s32\<close> table entry is converted to the type of \<open>frame->bitrate\<close>); a zero
  divisor has no defined result.
\<close>

definition frame_size_of :: "s32 \<Rightarrow> u32 \<Rightarrow> u32 \<Rightarrow> s32 \<Rightarrow> u32 option" where
  "frame_size_of unk br sr pad =
     (if sr = 0 then None else Some ((unk * br) div sr + pad))"

subsection \<open>ParseMp3Header\<close>

definition ParseMp3Header ::
  "u8 list \<Rightarrow> u32 \<Rightarrow> s32 \<Rightarrow> AjmDecMp3ParseFrame \<Rightarrow> (s32 \<times> AjmDecMp3ParseFrame) option"
where
  "ParseMp3Header buf stream_size parse_ofl frame =
     do {
       b1 \<leftarrow> at buf 1;
       b2 \<leftarrow> at buf 2;
       row \<leftarrow> at SamplerateTable (unat (version_idx b1));
       sr \<leftarrow> at row (unat (sr_idx b2));
       let frame = frame\<lparr>sample_rate := sr\<rparr>;
       brow \<leftarrow> at BitrateTable (if version_idx b1 \<noteq> 1 then 1 else 0);
       br \<leftarrow> at brow (unat (br_idx b2));
       let frame = frame\<lparr>bitrate := br * 1000\<rparr>;
       b3 \<leftarrow> at buf 3;
       let frame = frame\<lparr>num_channels := (if b3 < 0xc0 then 1 else 0) + 1\<rparr>;
       unk \<leftarrow> at UnkTable (unat (unk_idx b1));
       fs \<leftarrow> frame_size_of unk (bitrate frame) (sample_rate frame) (padding_bit b2);
       let frame = frame\<lparr>frame_size := fs\<rparr>;
       let frame = frame\<lparr>samples_per_channel := unk * 8\<rparr>;
       let frame = frame\<lparr>encoder_delay := 0\<rparr>;
       if parse_ofl = 0 then Some (0, frame) else Some (0, frame)
     }"

subsection \<open>The header algorithm as the specification words it\<close>

text \<open>
  A second, independent definition that follows the nine steps of the specification
  (section 4.1) on natural numbers: bit \<open>k\<close> of a byte is \<open>(b div 2 ^ k) mod 2\<close>, and
  the division of step 7 is the truncating division of non-negative integers. It is
  compared with \<open>ParseMp3Header\<close> below.
\<close>

record FrameHeader =
  fh_sample_rate :: nat
  fh_bitrate :: nat
  fh_num_channels :: nat
  fh_frame_size :: nat
  fh_samples_per_channel :: nat
  fh_encoder_delay :: nat

definition bits :: "nat \<Rightarrow> nat \<Rightarrow> nat \<Rightarrow> nat" where
  "bits lo hi b = (b div 2 ^ lo) mod 2 ^ (Suc hi - lo)"

definition spec_SampleRateTable :: "nat list list" where
  "spec_SampleRateTable =
     [[0x5622, 0x5DC0, 0x3E80], [0xAC44, 0xBB80, 0x7D00], [0x2B11, 0x2EE0, 0x1F40]]"

definition spec_BitrateTable :: "nat list list" where
  "spec_BitrateTable =
     [[0, 0x20, 0x28, 0x30, 0x38, 0x40, 0x50, 0x60, 0x70, 0x80, 0xA0, 0xC0, 0xE0, 0x100, 0x140],
      [0, 0x8, 0x10, 0x18, 0x20, 0x28, 0x30, 0x38, 0x40, 0x50, 0x60, 0x70, 0x80, 0x90, 0xA0]]"

definition spec_UnkTable :: "nat list" where
  "spec_UnkTable = [0x48, 0x90]"

definition spec_unk_idx :: "nat list \<Rightarrow> nat" where
  "spec_unk_idx bytes = bits 3 3 (bytes ! 1)"

definition spec_version_idx :: "nat list \<Rightarrow> nat" where
  "spec_version_idx bytes = bits 3 4 (bytes ! 1) XOR 2"

definition spec_sr_idx :: "nat list \<Rightarrow> nat" where
  "spec_sr_idx bytes = bits 2 3 (bytes ! 2)"

definition spec_br_idx :: "nat list \<Rightarrow> nat" where
  "spec_br_idx bytes = bits 4 7 (bytes ! 2)"

definition spec_padding_bit :: "nat list \<Rightarrow> nat" where
  "spec_padding_bit bytes = bits 1 1 (bytes ! 2)"

definition spec_frame_size :: "nat \<Rightarrow> nat \<Rightarrow> nat \<Rightarrow> nat \<Rightarrow> nat" where
  "spec_frame_size unk br sr pad = (unk * br) div sr + pad"

definition ParseFrameHeader :: "nat list \<Rightarrow> FrameHeader" where
  "ParseFrameHeader bytes =
     (let unk = spec_UnkTable ! spec_unk_idx bytes;
          sr = spec_SampleRateTable ! spec_version_idx bytes ! spec_sr_idx bytes;
          br = spec_BitrateTable ! (if spec_version_idx bytes \<noteq> 1 then 1 else 0)
                 ! spec_br_idx bytes * 1000
      in \<lparr>fh_sample_rate = sr,
          fh_bitrate = br,
          fh_num_channels = (if bytes ! 3 < 0xC0 then 2 else 1),
          fh_frame_size = spec_frame_size unk br sr (spec_padding_bit bytes),
          fh_samples_per_channel = unk * 8,
          fh_encoder_delay = 0\<rparr>)"

definition indices_in_range :: "nat list \<Rightarrow> bool" where
  "indices_in_range bytes \<longleftrightarrow>
     spec_unk_idx bytes < 2 \<and> spec_version_idx bytes < 3 \<and> spec_sr_idx bytes < 3 \<and>
     spec_br_idx bytes < 15"

text \<open>The frame structure read back as numbers.\<close>

definition frame_values :: "AjmDecMp3ParseFrame \<Rightarrow> FrameHeader" where
  "frame_values f =
     \<lparr>fh_sample_rate = unat (sample_rate f),
      fh_bitrate = unat (bitrate f),
      fh_num_channels = unat (num_channels f),
      fh_frame_size = unat (frame_size f),
      fh_samples_per_channel = unat (samples_per_channel f),
      fh_encoder_delay = unat (encoder_delay f)\<rparr>"

section \<open>The decoder session (ajm\_mp3.cpp, lines 29--126)\<close>

subsection \<open>Errors\<close>

text \<open>
  \<open>ASSERT_MSG\<close> and \<open>UNREACHABLE_MSG\<close> abort the process; a null pointer that the
  code dereferences and a release of memory that is not live are failures of the
  same kind. Each is a value of the model.
\<close>

datatype error =
    ASSERT_MSG string
  | UNREACHABLE_MSG string
  | NullDereference
  | InvalidFree

subsection \<open>The data of libavcodec, libavutil and libswresample that the code touches\<close>

definition AV_CODEC_ID_MP3 :: s32 where "AV_CODEC_ID_MP3 = 0x15001"
definition AV_SAMPLE_FMT_S16 :: s32 where "AV_SAMPLE_FMT_S16 = 1"
definition AV_PKT_FLAG_KEY :: s32 where "AV_PKT_FLAG_KEY = 1"
definition AVERROR_EAGAIN :: s32 where "AVERROR_EAGAIN = - 11"
definition AVERROR_EOF :: s32 where "AVERROR_EOF = - 541478725"

record AVCodec =
  codec_id :: s32

record AVChannelLayout =
  nb_channels :: s32
  u_mask :: u64

text \<open>\<open>data0 f i\<close> is the byte at \<open>frame->data[0] + i\<close>.\<close>

record AVFrame =
  data0 :: "nat \<Rightarrow> u8"
  nb_samples :: s32
  format :: s32
  frame_sample_rate :: s32
  ch_layout :: AVChannelLayout

record AVPacket =
  pkt_data :: "u8 list"
  pkt_size :: s32
  pkt_pts :: s64
  pkt_dts :: s64
  pkt_flags :: s32

text \<open>
  The splitter and the engine keep private state the code never inspects: it is the
  type parameter of their context records. An engine context also has the identity
  of its allocation.
\<close>

record 'p AVCodecParserContext =
  pts :: s64
  dts :: s64
  key_frame :: s32
  priv_data :: 'p

record 'e AVCodecContext =
  addr :: nat
  engine :: 'e

record SwrContext =
  out_ch_layout :: AVChannelLayout
  out_sample_fmt :: s32
  out_sample_rate :: s32
  in_ch_layout :: AVChannelLayout
  in_sample_fmt :: s32
  in_sample_rate :: s32
  initialized :: bool

subsection \<open>Allocation of engine contexts\<close>

text \<open>
  The heap records which engine contexts are live and, in order, every release.
  Allocations are numbered, so a context once released is never live again.
\<close>

record heap =
  live :: "nat list"
  released :: "nat list"
  next_addr :: nat

subsection \<open>The external library as a parameter\<close>

text \<open>
  What the splitter, the engine and the converter compute is outside the repository;
  the model takes them as one record of functions. \<open>av_parser_parse2\<close> receives the
  splitter context, the engine state, the input window and its size, and returns the
  new contexts, the packet data and size it stored through its out parameters and
  its return value (its timestamp arguments are the constants of line 84).
  \<open>avcodec_alloc_context3\<close> answers \<open>None\<close> when the allocation fails.
\<close>

record ('p, 'e) libav =
  avcodec_find_decoder :: "s32 \<Rightarrow> AVCodec option"
  av_parser_init :: "s32 \<Rightarrow> 'p AVCodecParserContext option"
  avcodec_alloc_context3 :: "heap \<Rightarrow> AVCodec option \<Rightarrow> 'e option"
  avcodec_open2 :: "'e \<Rightarrow> 'e \<times> s32"
  av_parser_parse2 ::
    "'p AVCodecParserContext \<Rightarrow> 'e \<Rightarrow> u8 list \<Rightarrow> u32 \<Rightarrow>
       'p AVCodecParserContext \<times> 'e \<times> u8 list \<times> s32 \<times> s32"
  avcodec_send_packet :: "'e \<Rightarrow> AVPacket \<Rightarrow> 'e \<times> s32"
  avcodec_receive_frame :: "'e \<Rightarrow> 'e \<times> AVFrame \<times> s32"
  swr_convert_frame :: "SwrContext option \<Rightarrow> AVFrame \<Rightarrow> AVFrame \<Rightarrow> AVFrame \<times> s32"

text \<open>
  The allocation functions, as their documentation states them:
  \<open>avcodec_free_context\<close> releases the context and stores null through its argument
  (and does nothing for a null context); \<open>av_free\<close> releases a block and accepts null.
\<close>

definition release :: "heap \<Rightarrow> nat \<Rightarrow> error + heap" where
  "release h a =
     (if a \<in> set (live h)
      then Inr (h\<lparr>live := removeAll a (live h), released := released h @ [a]\<rparr>)
      else Inl InvalidFree)"

definition avcodec_free_context ::
  "heap \<Rightarrow> 'e AVCodecContext option \<Rightarrow> error + heap \<times> 'e AVCodecContext option"
where
  "avcodec_free_context h pc =
     (case pc of
        None \<Rightarrow> Inr (h, None)
      | Some ctx \<Rightarrow>
          (case release h (addr ctx) of Inl e \<Rightarrow> Inl e | Inr h' \<Rightarrow> Inr (h', None)))"

definition av_free :: "heap \<Rightarrow> 'e AVCodecContext option \<Rightarrow> error + heap" where
  "av_free h pc = (case pc of None \<Rightarrow> Inr h | Some ctx \<Rightarrow> release h (addr ctx))"

definition alloc_context ::
  "('p, 'e) libav \<Rightarrow> heap \<Rightarrow> AVCodec option \<Rightarrow> heap \<times> 'e AVCodecContext option"
where
  "alloc_context L h cd =
     (case avcodec_alloc_context3 L h cd of
        None \<Rightarrow> (h, None)
      | Some e \<Rightarrow>
          (h\<lparr>live := next_addr h # live h, next_addr := Suc (next_addr h)\<rparr>,
           Some \<lparr>addr = next_addr h, engine = e\<rparr>))"

text \<open>
  \<open>swr_alloc_set_opts2\<close> allocates a context when the pointer it is given is null and
  sets the six options; \<open>swr_init\<close> initialises it.
\<close>

definition swr_alloc_set_opts2 ::
  "SwrContext option \<Rightarrow> AVChannelLayout \<Rightarrow> s32 \<Rightarrow> s32 \<Rightarrow> AVChannelLayout \<Rightarrow> s32 \<Rightarrow> s32 \<Rightarrow>
     SwrContext option"
where
  "swr_alloc_set_opts2 ps ocl ofmt orate icl ifmt irate =
     Some \<lparr>out_ch_layout = ocl, out_sample_fmt = ofmt, out_sample_rate = orate,
           in_ch_layout = icl, in_sample_fmt = ifmt, in_sample_rate = irate,
           initialized = (case ps of None \<Rightarrow> False | Some s \<Rightarrow> initialized s)\<rparr>"

definition swr_init :: "SwrContext option \<Rightarrow> SwrContext option" where
  "swr_init ps = map_option (\<lambda>s. s\<lparr>initialized := True\<rparr>) ps"

subsection \<open>The session and the process-wide state\<close>

text \<open>
  Modelled from the spec: the class declaration (ajm\_mp3.h) is not part of the source
  tree. The members are those the member functions use; the two counters have the
  width the spec gives them (section 3), and \<open>file_out\<close> (the member \<open>file\<close>) holds the
  bytes written to the stream of line 112.
\<close>

record ('p, 'e) AjmMp3Decoder =
  codec :: "AVCodec option"
  c :: "'e AVCodecContext option"
  parser :: "'p AVCodecParserContext option"
  decoded_samples :: u64
  num_frames :: u64
  file_out :: "u8 list"

text \<open>
  Line 29: \<open>swr_context\<close> is a variable at namespace scope, one for the whole process
  and not a member of the session.
\<close>

record globals =
  swr_context :: "SwrContext option"

text \<open>
  Modelled from the spec: the job-output record (\<open>AjmJobOutput\<close>, declared outside the
  source tree) with its optional multi-frame part, which holds the aggregate frame
  counter.
\<close>

record AjmSidebandMFrame =
  mframe_num_frames :: u64

record AjmJobOutput =
  p_mframe :: "AjmSidebandMFrame option"

subsection \<open>Reset and the constructor (lines 54--78)\<close>

definition Reset ::
  "('p, 'e) libav \<Rightarrow> heap \<Rightarrow> ('p, 'e) AjmMp3Decoder \<Rightarrow> error + heap \<times> ('p, 'e) AjmMp3Decoder"
where
  "Reset L h self =
     (case (if c self \<noteq> None
            then (case avcodec_free_context h (c self) of
                    Inl e \<Rightarrow> Inl e
                  | Inr (h1, c1) \<Rightarrow>
                      (case av_free h1 c1 of Inl e \<Rightarrow> Inl e | Inr h2 \<Rightarrow> Inr (h2, c1)))
            else Inr (h, c self)) of
        Inl e \<Rightarrow> Inl e
      | Inr (h3, c3) \<Rightarrow>
          (case alloc_context L h3 (codec self) of
             (h4, None) \<Rightarrow> Inl (ASSERT_MSG ''Could not allocate audio codec context'')
           | (h4, Some ctx) \<Rightarrow>
               (case avcodec_open2 L (engine ctx) of
                  (e, ret) \<Rightarrow>
                    if ret <s 0 then Inl (ASSERT_MSG ''Could not open codec'')
                    else Inr (h4, self\<lparr>c := Some (ctx\<lparr>engine := e\<rparr>),
                                        decoded_samples := 0, num_frames := 0\<rparr>))))"

definition AjmMp3Decoder_new ::
  "('p, 'e) libav \<Rightarrow> heap \<Rightarrow> error + heap \<times> ('p, 'e) AjmMp3Decoder"
where
  "AjmMp3Decoder_new L h =
     (case avcodec_find_decoder L AV_CODEC_ID_MP3 of
        None \<Rightarrow> Inl (ASSERT_MSG ''MP3 codec not found'')
      | Some cd \<Rightarrow>
          (case av_parser_init L (codec_id cd) of
             None \<Rightarrow> Inl (ASSERT_MSG ''Parser not found'')
           | Some p \<Rightarrow>
               Reset L h \<lparr>codec = Some cd, c = None, parser = Some p,
                          decoded_samples = 0, num_frames = 0, file_out = []\<rparr>))"

subsection \<open>ConvertAudioFrame (lines 31--52)\<close>

text \<open>
  \<open>av_frame_clone\<close> gives a frame with the properties of the original. The result is
  the new value of the process-wide context and the converted frame, or null
  (\<open>None\<close>) when the conversion reports an error.
\<close>

definition ConvertAudioFrame ::
  "('p, 'e) libav \<Rightarrow> globals \<Rightarrow> AVFrame \<Rightarrow> globals \<times> AVFrame option"
where
  "ConvertAudioFrame L g frame =
     (let pcm16_frame = frame\<lparr>format := AV_SAMPLE_FMT_S16\<rparr>;
          g = (if swr_context g \<noteq> None then g\<lparr>swr_context := None\<rparr> else g);
          icl = ch_layout frame;
          ocl = ch_layout pcm16_frame;
          g = g\<lparr>swr_context :=
                  swr_alloc_set_opts2 (swr_context g) ocl AV_SAMPLE_FMT_S16
                    (frame_sample_rate frame) icl (format frame) (frame_sample_rate frame)\<rparr>;
          g = g\<lparr>swr_context := swr_init (swr_context g)\<rparr>
      in case swr_convert_frame L (swr_context g) pcm16_frame frame of
           (converted, res) \<Rightarrow> if res <s 0 then (g, None) else (g, Some converted))"

subsection \<open>Decode (lines 80--126)\<close>

text \<open>
  The variables of one call: the session, the process-wide state, the input cursor
  (\<open>buf\<close> holds the bytes from the cursor on) and \<open>in_size\<close>, the bytes stored through
  the output cursor so far (\<open>out_buf\<close>) and \<open>out_size\<close>, and the packet. \<open>delivered\<close> is
  the trace of the decoded blocks that line 111 copied, in order; no statement of
  the source reads it.
\<close>

record ('p, 'e) decode_state =
  self :: "('p, 'e) AjmMp3Decoder"
  glob :: globals
  buf :: "u8 list"
  in_size :: u32
  out_buf :: "u8 list"
  out_size :: u32
  pkt :: AVPacket
  delivered :: "AVFrame list"

definition av_packet_alloc :: AVPacket where
  "av_packet_alloc = \<lparr>pkt_data = [], pkt_size = 0, pkt_pts = 0, pkt_dts = 0, pkt_flags = 0\<rparr>"

text \<open>
  Lines 84--88: one call of the splitter. The cursor advances by its return value,
  and \<open>in_size\<close>, a \<open>u32\<close>, is decreased by it modulo \<open>2 ^ 32\<close>.
\<close>

definition parse_step ::
  "('p, 'e) libav \<Rightarrow> ('p, 'e) decode_state \<Rightarrow> error + ('p, 'e) decode_state"
where
  "parse_step L st =
     (case (parser (self st), c (self st)) of
        (Some p, Some ctx) \<Rightarrow>
          (case av_parser_parse2 L p (engine ctx) (buf st) (in_size st) of
             (p', e', d, sz, ret) \<Rightarrow>
               if ret <s 0 then Inl (ASSERT_MSG ''Error while parsing'')
               else Inr (st\<lparr>self := (self st)\<lparr>parser := Some p',
                                                 c := Some (ctx\<lparr>engine := e'\<rparr>)\<rparr>,
                            pkt := (pkt st)\<lparr>pkt_data := d, pkt_size := sz\<rparr>,
                            buf := drop (unat ret) (buf st),
                            in_size := in_size st - ret\<rparr>))
      | _ \<Rightarrow> Inl NullDereference)"

text \<open>Lines 92--96: the packet is completed and submitted to the engine.\<close>

definition send_step ::
  "('p, 'e) libav \<Rightarrow> ('p, 'e) decode_state \<Rightarrow> error + s32 \<times> ('p, 'e) decode_state"
where
  "send_step L st =
     (case (parser (self st), c (self st)) of
        (Some p, Some ctx) \<Rightarrow>
          (let pk = (pkt st)\<lparr>pkt_pts := pts p, pkt_dts := dts p,
                              pkt_flags := (if key_frame p = 1 then AV_PKT_FLAG_KEY else 0)\<rparr>
           in case avcodec_send_packet L (engine ctx) pk of
                (e', ret) \<Rightarrow>
                  if ret <s 0 then Inl (ASSERT_MSG ''Error submitting the packet to the decoder'')
                  else Inr (ret, st\<lparr>self := (self st)\<lparr>c := Some (ctx\<lparr>engine := e'\<rparr>)\<rparr>,
                                    pkt := pk\<rparr>))
      | _ \<Rightarrow> Inl NullDereference)"

text \<open>
  Line 110: the product of the two \<open>int\<close>s is converted to \<open>size_t\<close> (sign-extended to
  64 bits) and doubled.
\<close>

definition block_size :: "AVFrame \<Rightarrow> u64" where
  "block_size frame = scast (nb_channels (ch_layout frame) * nb_samples frame) * 2"

text \<open>
  Lines 110--116: the block is copied to the output cursor and to the file, the
  cursor advances, \<open>out_size\<close> (a \<open>u32\<close>) is decreased by the size modulo \<open>2 ^ 32\<close>, and
  the two counters grow. No statement compares the size with \<open>out_size\<close>.
\<close>

definition deliver :: "AVFrame \<Rightarrow> ('p, 'e) decode_state \<Rightarrow> ('p, 'e) decode_state" where
  "deliver frame st =
     (let sz = block_size frame;
          bytes = map (data0 frame) [0..<unat sz]
      in st\<lparr>out_buf := out_buf st @ bytes,
            out_size := out_size st - ucast sz,
            self := (self st)\<lparr>file_out := file_out (self st) @ bytes,
                              decoded_samples := decoded_samples (self st)
                                                   + scast (nb_samples frame),
                              num_frames := num_frames (self st) + 1\<rparr>,
            delivered := delivered st @ [frame]\<rparr>)"

text \<open>
  Lines 100--109: one frame is requested from the engine. \<open>Inr None\<close> is the
  \<open>break\<close> of line 103; a frame that is not 16-bit PCM goes through
  \<open>ConvertAudioFrame\<close>, whose null result line 110 would dereference.
\<close>

definition receive_step ::
  "('p, 'e) libav \<Rightarrow> ('p, 'e) decode_state \<Rightarrow>
     error + s32 \<times> ('p, 'e) decode_state \<times> AVFrame option"
where
  "receive_step L st =
     (case c (self st) of
        None \<Rightarrow> Inl NullDereference
      | Some ctx \<Rightarrow>
          (case avcodec_receive_frame L (engine ctx) of
             (e', frame, ret) \<Rightarrow>
               (let st = st\<lparr>self := (self st)\<lparr>c := Some (ctx\<lparr>engine := e'\<rparr>)\<rparr>\<rparr>
                in if ret = AVERROR_EAGAIN \<or> ret = AVERROR_EOF then Inr (ret, st, None)
                   else if ret <s 0 then Inl (UNREACHABLE_MSG ''Error during decoding'')
                   else if format frame \<noteq> AV_SAMPLE_FMT_S16
                   then (case ConvertAudioFrame L (glob st) frame of
                           (g, None) \<Rightarrow> Inl NullDereference
                         | (g, Some pcm16) \<Rightarrow> Inr (ret, st\<lparr>glob := g\<rparr>, Some pcm16))
                   else Inr (ret, st, Some frame))))"

text \<open>The loop of lines 99--118; \<open>None\<close> is a loop that never ends.\<close>

partial_function (option) drain ::
  "('p, 'e) libav \<Rightarrow> s32 \<Rightarrow> ('p, 'e) decode_state \<Rightarrow> (error + ('p, 'e) decode_state) option"
where
  "drain L ret st =
     (if 0 \<le>s ret then
        (case receive_step L st of
           Inl e \<Rightarrow> Some (Inl e)
         | Inr (ret', st', None) \<Rightarrow> Some (Inr st')
         | Inr (ret', st', Some frame) \<Rightarrow> drain L ret' (deliver frame st'))
      else Some (Inr st))"

declare drain.simps [code]

text \<open>The loop of lines 83--120.\<close>

partial_function (option) decode_loop ::
  "('p, 'e) libav \<Rightarrow> ('p, 'e) decode_state \<Rightarrow> (error + ('p, 'e) decode_state) option"
where
  "decode_loop L st =
     (if 0 < in_size st \<and> 0 < out_size st then
        (case parse_step L st of
           Inl e \<Rightarrow> Some (Inl e)
         | Inr st1 \<Rightarrow>
             if pkt_size (pkt st1) \<noteq> 0 then
               (case send_step L st1 of
                  Inl e \<Rightarrow> Some (Inl e)
                | Inr (ret, st2) \<Rightarrow>
                    Option.bind (drain L ret st2)
                      (\<lambda>r. case r of Inl e \<Rightarrow> Some (Inl e) | Inr st3 \<Rightarrow> decode_loop L st3))
             else decode_loop L st1)
      else Some (Inr st))"

declare decode_loop.simps [code]

text \<open>
  Lines 122--124: the aggregate counter of the job-output record grows by the
  member \<open>num_frames\<close> of the session.
\<close>

definition add_frames :: "AjmJobOutput \<Rightarrow> u64 \<Rightarrow> AjmJobOutput" where
  "add_frames output n =
     (case p_mframe output of
        None \<Rightarrow> output
      | Some m \<Rightarrow> output\<lparr>p_mframe := Some (m\<lparr>mframe_num_frames := mframe_num_frames m + n\<rparr>)\<rparr>)"

text \<open>
  \<open>Decode\<close> returns the state at the end of the call, the job-output record and the
  pair the source returns. \<open>None\<close>: the call never returns; \<open>Some (Inl e)\<close>: it aborts.
\<close>

definition Decode ::
  "('p, 'e) libav \<Rightarrow> globals \<Rightarrow> ('p, 'e) AjmMp3Decoder \<Rightarrow> u8 list \<Rightarrow> u32 \<Rightarrow> u32 \<Rightarrow> AjmJobOutput \<Rightarrow>
     (error + ('p, 'e) decode_state \<times> AjmJobOutput \<times> u32 \<times> u32) option"
where
  "Decode L g this_session input isz osz output =
     Option.bind
       (decode_loop L \<lparr>self = this_session, glob = g, buf = input, in_size = isz,
                       out_buf = [], out_size = osz, pkt = av_packet_alloc, delivered = []\<rparr>)
       (\<lambda>r. case r of
              Inl e \<Rightarrow> Some (Inl e)
            | Inr st \<Rightarrow>
                Some (Inr (st, add_frames output (num_frames (self st)),
                           in_size st, out_size st)))"

section \<open>Resource invariants\<close>

text \<open>
  A well-formed heap releases nothing twice and keeps nothing both live and
  released; a session owns its engine context when the context, if there is one, is
  live. The library is reliable when allocation and opening never fail.
\<close>

definition heap_ok :: "heap \<Rightarrow> bool" where
  "heap_ok h \<longleftrightarrow>
     distinct (live h) \<and> distinct (released h) \<and> set (live h) \<inter> set (released h) = {} \<and>
     list_all (\<lambda>a. a < next_addr h) (live h @ released h)"

definition ctx_addrs :: "'e AVCodecContext option \<Rightarrow> nat list" where
  "ctx_addrs pc = (case pc of None \<Rightarrow> [] | Some ctx \<Rightarrow> [addr ctx])"

definition owns :: "heap \<Rightarrow> ('p, 'e) AjmMp3Decoder \<Rightarrow> bool" where
  "owns h s \<longleftrightarrow> list_all (\<lambda>a. a \<in> set (live h)) (ctx_addrs (c s))"

definition reliable :: "('p, 'e) libav \<Rightarrow> bool" where
  "reliable L \<longleftrightarrow>
     (\<forall>h cd. avcodec_alloc_context3 L h cd \<noteq> None) \<and> (\<forall>e. \<not> snd (avcodec_open2 L e) <s 0)"

section \<open>What the library is assumed to do, and what a caller observes\<close>

text \<open>
  The splitter advances when every call on a non-empty window either fails or
  consumes at least one byte and at most the window. The engine drains, for a measure
  \<open>m\<close> of its state, when every frame it hands out lowers the measure.
\<close>

definition splitter_advances :: "('p, 'e) libav \<Rightarrow> bool" where
  "splitter_advances L \<longleftrightarrow>
     (\<forall>p e b n. case av_parser_parse2 L p e b n of
        (p', e', d, sz, ret) \<Rightarrow> n = 0 \<or> ret <s 0 \<or> (ret \<noteq> 0 \<and> ret \<le> n))"

definition engine_drains :: "('p, 'e) libav \<Rightarrow> ('e \<Rightarrow> nat) \<Rightarrow> bool" where
  "engine_drains L m \<longleftrightarrow>
     (\<forall>e. case avcodec_receive_frame L e of
        (e', frame, ret) \<Rightarrow>
          ret = AVERROR_EAGAIN \<or> ret = AVERROR_EOF \<or> ret <s 0 \<or> m e' < m e)"

text \<open>
  The observable part of a result of \<open>Decode\<close>: the bytes stored through the output
  pointer, the two counters, the number of blocks copied during the call, the
  job-output record and the returned pair.
\<close>

definition observe ::
  "(error + ('p, 'e) decode_state \<times> AjmJobOutput \<times> u32 \<times> u32) option \<Rightarrow>
     (error + u8 list \<times> u64 \<times> u64 \<times> nat \<times> AjmJobOutput \<times> u32 \<times> u32) option"
where
  "observe r =
     map_option (map_sum id (\<lambda>(st, out, szs).
       (out_buf st, decoded_samples (self st), num_frames (self st), length (delivered st),
        out, szs))) r"

text \<open>
  \<open>counted st st'\<close>: from \<open>st\<close> to \<open>st'\<close> the trace grew by some blocks, \<open>num_frames\<close> by
  their number and \<open>decoded_samples\<close> by their sample counts, both modulo \<open>2 ^ 64\<close>.
\<close>

definition counted :: "('p, 'e) decode_state \<Rightarrow> ('p, 'e) decode_state \<Rightarrow> bool" where
  "counted st st' \<longleftrightarrow>
     (\<exists>fs. delivered st' = delivered st @ fs \<and>
        num_frames (self st') = num_frames (self st) + of_nat (length fs) \<and>
        decoded_samples (self st') =
          decoded_samples (self st) + sum_list (map (\<lambda>f. scast (nb_samples f)) fs))"

definition samples_of :: "AVFrame list \<Rightarrow> nat" where
  "samples_of fs = sum_list (map (\<lambda>f. unat (nb_samples f)) fs)"

text \<open>The sample counts of the blocks a call delivered, in order.\<close>

definition observe_trace ::
  "(error + ('p, 'e) decode_state \<times> AjmJobOutput \<times> u32 \<times> u32) option \<Rightarrow>
     (error + s32 list) option"
where
  "observe_trace r =
     map_option (map_sum id (\<lambda>(st, out, szs). map nb_samples (delivered st))) r"

text \<open>A state of a call with the process-wide conversion context left out.\<close>

definition forget_glob :: "('p, 'e) decode_state \<Rightarrow> ('p, 'e) decode_state" where
  "forget_glob st = st\<lparr>glob := \<lparr>swr_context = None\<rparr>\<rparr>"



section \<open>Inputs for the examples\<close>

definition zero_frame :: AjmDecMp3ParseFrame where
  "zero_frame = \<lparr>sample_rate = 0, bitrate = 0, num_channels = 0, frame_size = 0,
                  samples_per_channel = 0, encoder_delay = 0\<rparr>"

text \<open>
  A small stand-in for the library. Its splitter consumes one byte per call and
  hands it on as a packet; its engine state counts the frames it still has to
  return, one per packet, each a mono block of two 16-bit samples (four bytes).
\<close>

definition pcm_frame :: AVFrame where
  "pcm_frame =
     \<lparr>data0 = (\<lambda>i. of_nat i), nb_samples = 2, format = AV_SAMPLE_FMT_S16,
      frame_sample_rate = 44100, ch_layout = \<lparr>nb_channels = 1, u_mask = 4\<rparr>\<rparr>"

definition empty_frame :: AVFrame where
  "empty_frame =
     \<lparr>data0 = (\<lambda>i. 0), nb_samples = 0, format = - 1,
      frame_sample_rate = 0, ch_layout = \<lparr>nb_channels = 0, u_mask = 0\<rparr>\<rparr>"

definition test_lib :: "(unit, nat) libav" where
  "test_lib =
     \<lparr>avcodec_find_decoder = (\<lambda>i. Some \<lparr>codec_id = i\<rparr>),
      av_parser_init = (\<lambda>i. Some \<lparr>pts = 0, dts = 0, key_frame = 1, priv_data = ()\<rparr>),
      avcodec_alloc_context3 = (\<lambda>h cd. Some 0),
      avcodec_open2 = (\<lambda>e. (e, 0)),
      av_parser_parse2 = (\<lambda>p e b n. (p, e, take 1 b, 1, 1)),
      avcodec_send_packet = (\<lambda>e pk. (Suc e, 0)),
      avcodec_receive_frame =
        (\<lambda>e. case e of 0 \<Rightarrow> (0, empty_frame, AVERROR_EAGAIN) | Suc k \<Rightarrow> (k, pcm_frame, 0)),
      swr_convert_frame = (\<lambda>s out inp. (out, 0))\<rparr>"

text \<open>A splitter that consumes nothing and produces no packet.\<close>

definition stalled_lib :: "(unit, nat) libav" where
  "stalled_lib = test_lib\<lparr>av_parser_parse2 := (\<lambda>p e b n. (p, e, [], 0, 0))\<rparr>"



definition empty_heap :: heap where
  "empty_heap = \<lparr>live = [], released = [], next_addr = 0\<rparr>"

definition test_heap :: heap where
  "test_heap = \<lparr>live = [0], released = [], next_addr = 1\<rparr>"

definition test_session :: "(unit, nat) AjmMp3Decoder" where
  "test_session =
     \<lparr>codec = Some \<lparr>codec_id = AV_CODEC_ID_MP3\<rparr>,
      c = Some \<lparr>addr = 0, engine = 0\<rparr>,
      parser = Some \<lparr>pts = 0, dts = 0, key_frame = 1, priv_data = ()\<rparr>,
      decoded_samples = 0, num_frames = 0, file_out = []\<rparr>"

definition no_globals :: globals where
  "no_globals = \<lparr>swr_context = None\<rparr>"

definition job_output :: AjmJobOutput where
  "job_output = \<lparr>p_mframe = Some \<lparr>mframe_num_frames = 0\<rparr>\<rparr>"

definition stalled_state :: "(unit, nat) decode_state" where
  "stalled_state =
     \<lparr>self = test_session, glob = no_globals, buf = [0], in_size = 1, out_buf = [],
      out_size = 16, pkt = av_packet_alloc, delivered = []\<rparr>"

text \<open>
  The session after one call that produced one frame, and one whose counters stand
  where \<open>2 ^ 63 - 1\<close> frames of two samples leave them.
\<close>

definition used_session :: "(unit, nat) AjmMp3Decoder" where
  "used_session = test_session\<lparr>decoded_samples := 2, num_frames := 1, file_out := [0, 1, 2, 3]\<rparr>"

definition full_session :: "(unit, nat) AjmMp3Decoder" where
  "full_session =
     test_session\<lparr>decoded_samples := 0xFFFFFFFFFFFFFFFE, num_frames := 0x7FFFFFFFFFFFFFFF\<rparr>"

section \<open>Properties of the header parser\<close>

subsection \<open>The index computations as arithmetic\<close>

lemma mask1: "(x::32 word) AND 1 = take_bit 1 x" 
  using take_bit_eq_mask[of 1 x] by (simp add: mask_eq_exp_minus_1)
lemma mask3: "(x::32 word) AND 3 = take_bit 2 x"
  using take_bit_eq_mask[of 2 x] by (simp add: mask_eq_exp_minus_1)
lemma maskf: "(x::32 word) AND 0xf = take_bit 4 x"
  using take_bit_eq_mask[of 4 x] by (simp add: mask_eq_exp_minus_1)

lemma u8_mod32: "unat (b::8 word) mod 4294967296 = unat b"
  using unsigned_less[of b, where ?'a=nat] by simp

lemmas w2n = u8_mod32 unsigned_take_bit_eq unsigned_drop_bit_eq unsigned_ucast_eq unat_div unat_mod

lemma unat_unk_idx: "unat (unk_idx b) = bits 3 3 (unat b)"
  by (simp add: unk_idx_def bits_def mask1 w2n take_bit_eq_mod drop_bit_eq_div)

lemma unat_version_idx: "unat (version_idx b) = bits 3 4 (unat b) XOR 2"
  by (simp add: version_idx_def bits_def mask3 unsigned_xor_eq w2n take_bit_eq_mod drop_bit_eq_div)

lemma unat_sr_idx: "unat (sr_idx b) = bits 2 3 (unat b)"
  by (simp add: sr_idx_def bits_def mask3 w2n take_bit_eq_mod drop_bit_eq_div)

lemma unat_br_idx: "unat (br_idx b) = bits 4 7 (unat b)"
  by (simp add: br_idx_def bits_def maskf w2n take_bit_eq_mod drop_bit_eq_div)

lemma unat_padding_bit: "unat (padding_bit b) = bits 1 1 (unat b)"
  by (simp add: padding_bit_def bits_def mask1 w2n take_bit_eq_mod drop_bit_eq_div)

lemma tables_agree:
  "map (map unat) SamplerateTable = spec_SampleRateTable"
  "map (map unat) BitrateTable = spec_BitrateTable"
  "map unat UnkTable = spec_UnkTable"
  by (simp_all add: SamplerateTable_def spec_SampleRateTable_def BitrateTable_def
      spec_BitrateTable_def UnkTable_def spec_UnkTable_def)

lemma table_bounds:
  "list_all (\<lambda>x. 0 < x) (concat spec_SampleRateTable)"
  "list_all (\<lambda>x. x \<le> 320) (concat spec_BitrateTable)"
  "list_all (\<lambda>x. x \<le> 144) spec_UnkTable"
  by (simp_all add: spec_SampleRateTable_def spec_BitrateTable_def spec_UnkTable_def)

lemma table_shape:
  "map length SamplerateTable = [3, 3, 3]"
  "map length BitrateTable = [15, 15]"
  "length UnkTable = 2"
  by (simp_all add: SamplerateTable_def BitrateTable_def UnkTable_def)

lemma row_length:
  assumes "map length T = replicate k n" and "r < k"
  shows "r < length T \<and> length (T ! r) = n"
proof -
  have "length T = k"
    using assms(1) by (metis length_map length_replicate)
  moreover from this assms(2) have "length (T ! r) = map length T ! r"
    by simp
  ultimately show ?thesis
    using assms by simp
qed

lemma table_at:
  assumes shape: "map length T = replicate k n" and r: "r < k" and i: "i < n"
    and agree: "map (map unat) T = S"
  shows "\<exists>row x. at T r = Some row \<and> at row i = Some x \<and> unat x = S ! r ! i \<and>
           S ! r ! i \<in> set (concat S)"
proof -
  from row_length [OF shape r] have rl: "r < length T" "length (T ! r) = n"
    by simp_all
  have "unat (T ! r ! i) = S ! r ! i"
    using rl i agree by (metis nth_map)
  moreover have "S ! r \<in> set S" "S ! r ! i \<in> set (S ! r)"
    using rl i agree by (metis length_map nth_mem nth_map)+
  ultimately show ?thesis
    using rl i by (auto simp: at_def)
qed

lemma SamplerateTable_at:
  assumes "v < 3" "s < 3"
  shows "\<exists>row x. at SamplerateTable v = Some row \<and> at row s = Some x \<and>
           unat x = spec_SampleRateTable ! v ! s \<and> 0 < unat x"
proof -
  have "map length SamplerateTable = replicate 3 3"
    by (simp add: table_shape(1) numeral_3_eq_3)
  from table_at [OF this assms tables_agree(1)] table_bounds(1) show ?thesis
    by (fastforce simp: list_all_iff)
qed

lemma BitrateTable_at:
  assumes "r < 2" "b < 15"
  shows "\<exists>row x. at BitrateTable r = Some row \<and> at row b = Some x \<and>
           unat x = spec_BitrateTable ! r ! b \<and> unat x \<le> 320"
proof -
  have "map length BitrateTable = replicate 2 15"
    by (simp add: table_shape(2) numeral_2_eq_2)
  from table_at [OF this assms tables_agree(2)] table_bounds(2) show ?thesis
    by (fastforce simp: list_all_iff)
qed

lemma UnkTable_at:
  assumes "u < 2"
  shows "\<exists>x. at UnkTable u = Some x \<and> unat x = spec_UnkTable ! u \<and> unat x \<le> 144"
proof -
  have "unat (UnkTable ! u) = spec_UnkTable ! u"
    using assms tables_agree(3) table_shape(3) by (metis nth_map)
  moreover have "spec_UnkTable ! u \<in> set spec_UnkTable"
    using assms tables_agree(3) table_shape(3) by (metis length_map nth_mem)
  ultimately show ?thesis
    using assms table_bounds(3) by (auto simp: at_def table_shape(3) list_all_iff)
qed


lemma frame_size_of_unat:
  fixes unk br sr pad :: "32 word"
  assumes "unat unk \<le> 144" "unat br \<le> 320000" "0 < unat sr" "unat pad \<le> 1"
  shows "\<exists>fs. frame_size_of unk br sr pad = Some fs \<and>
           unat fs = spec_frame_size (unat unk) (unat br) (unat sr) (unat pad)"
proof -
  have "unat unk * unat br \<le> 144 * 320000"
    using assms(1,2) by (rule mult_le_mono)
  then have prod: "unat (unk * br) = unat unk * unat br"
    by (simp add: unat_mult_lem [THEN iffD1])
  have "unat unk * unat br div unat sr \<le> 144 * 320000"
    using \<open>unat unk * unat br \<le> 144 * 320000\<close> div_le_dividend order_trans by blast
  then have "unat ((unk * br) div sr) \<le> 144 * 320000"
    by (simp add: unat_div prod)
  with assms(4) have "unat ((unk * br) div sr) + unat pad < 2 ^ 32"
    by simp
  then have "unat ((unk * br) div sr + pad) = unat unk * unat br div unat sr + unat pad"
    by (simp add: unat_add_lem [THEN iffD1] unat_div prod)
  moreover have "sr \<noteq> 0" using assms(3) by auto
  ultimately show ?thesis
    by (simp add: frame_size_of_def spec_frame_size_def)
qed

lemma unat_num_channels:
  "unat ((if (b3::8 word) < 0xc0 then 1 else 0) + 1 :: 8 word) = (if unat b3 < 0xC0 then 2 else 1)"
  by (simp add: word_less_nat_alt)

lemma ParseMp3Header_in_range:
  assumes len: "length hdr = 4" and rng: "indices_in_range (map unat hdr)"
  shows "\<exists>frame'. ParseMp3Header hdr stream_size parse_ofl frame = Some (0, frame') \<and>
           frame_values frame' = ParseFrameHeader (map unat hdr)"
proof -
  define b1 b2 b3 where "b1 = hdr ! 1" and "b2 = hdr ! 2" and "b3 = hdr ! 3"
  define bytes where "bytes = map unat hdr"
  have rd: "at hdr 1 = Some b1" "at hdr 2 = Some b2" "at hdr 3 = Some b3"
    using len by (simp_all add: at_def b1_def b2_def b3_def)
  have byt: "bytes ! 1 = unat b1" "bytes ! 2 = unat b2" "bytes ! 3 = unat b3"
    using len by (simp_all add: bytes_def b1_def b2_def b3_def)
  have idx: "unat (unk_idx b1) = spec_unk_idx bytes"
    "unat (version_idx b1) = spec_version_idx bytes"
    "unat (sr_idx b2) = spec_sr_idx bytes"
    "unat (br_idx b2) = spec_br_idx bytes"
    "unat (padding_bit b2) = spec_padding_bit bytes"
    using byt by (simp_all add: unat_unk_idx unat_version_idx unat_sr_idx unat_br_idx unat_padding_bit
        spec_unk_idx_def spec_version_idx_def spec_sr_idx_def spec_br_idx_def
        spec_padding_bit_def)
  have in_rng: "spec_unk_idx bytes < 2" "spec_version_idx bytes < 3" "spec_sr_idx bytes < 3"
    "spec_br_idx bytes < 15"
    using rng by (simp_all add: indices_in_range_def bytes_def)
  have pad: "unat (padding_bit b2) \<le> 1"
    by (simp add: unat_padding_bit bits_def)
  have v1: "version_idx b1 \<noteq> 1 \<longleftrightarrow> spec_version_idx bytes \<noteq> 1"
    using idx(2) by (simp add: word_unat_eq_iff)
  define r :: nat where "r = (if spec_version_idx bytes \<noteq> 1 then 1 else 0)"
  have r2: "r < 2" by (simp add: r_def)
  obtain row sr where sr: "at SamplerateTable (spec_version_idx bytes) = Some row"
    "at row (spec_sr_idx bytes) = Some sr"
    "unat sr = spec_SampleRateTable ! spec_version_idx bytes ! spec_sr_idx bytes" "0 < unat sr"
    using SamplerateTable_at [OF in_rng(2,3)] by blast
  obtain brow br where br: "at BitrateTable r = Some brow" "at brow (spec_br_idx bytes) = Some br"
    "unat br = spec_BitrateTable ! r ! spec_br_idx bytes" "unat br \<le> 320"
    using BitrateTable_at [OF r2 in_rng(4)] by blast
  obtain unk where unk: "at UnkTable (spec_unk_idx bytes) = Some unk"
    "unat unk = spec_UnkTable ! spec_unk_idx bytes" "unat unk \<le> 144"
    using UnkTable_at [OF in_rng(1)] by blast
  have brr: "at BitrateTable (if version_idx b1 \<noteq> 1 then 1 else 0) = Some brow"
    using br(1) v1 by (simp add: r_def)
  have br1000: "unat (br * 1000) = unat br * 1000"
    using br(4) by (simp add: unat_mult_lem [THEN iffD1])
  then have brle: "unat (br * 1000) \<le> 320000"
    using br(4) by simp
  obtain fs where fs: "frame_size_of unk (br * 1000) sr (padding_bit b2) = Some fs"
    "unat fs = spec_frame_size (unat unk) (unat (br * 1000)) (unat sr) (unat (padding_bit b2))"
    using frame_size_of_unat [OF unk(3) brle sr(4) pad] by blast
  have unk8: "unat (unk * 8) = unat unk * 8"
    using unk(3) by (simp add: unat_mult_lem [THEN iffD1])
  let ?f = "\<lparr>sample_rate = sr, bitrate = br * 1000,
             num_channels = (if b3 < 0xc0 then 1 else 0) + 1, frame_size = fs,
             samples_per_channel = unk * 8, encoder_delay = 0\<rparr>"
  have run: "ParseMp3Header hdr stream_size parse_ofl frame = Some (0, ?f)"
    apply (simp only: ParseMp3Header_def rd Option.bind.simps Let_def idx brr sr br(2) unk(1))
    apply (simp add: fs(1))
    done
  have val: "frame_values ?f = ParseFrameHeader bytes"
    using byt(3) unfolding frame_values_def ParseFrameHeader_def Let_def
    by (auto simp: sr(3) br(3) unk(2) fs(2) br1000 unk8 idx(5) r_def word_less_nat_alt)
  from run val show ?thesis
    unfolding bytes_def by blast
qed


text \<open>
  Claim C1. For every 4-byte header whose derived indices are in table range,
  \<open>ParseMp3Header\<close> succeeds with status 0 and stores exactly the six fields that the
  nine steps of the specification compute over the fixed tables. The division of
  step 7 truncates: \<open>UnkTable[0] = 0x48\<close>, a bitrate of 128000, a sample rate of 44100
  and no padding give 208.
\<close>

theorem ParseMp3Header_follows_spec:
  assumes "length hdr = 4" and "indices_in_range (map unat hdr)"
  shows "(\<exists>frame'. ParseMp3Header hdr stream_size parse_ofl frame = Some (0, frame') \<and>
            frame_values frame' = ParseFrameHeader (map unat hdr)) \<and>
         frame_size_of 0x48 128000 44100 0 = Some 208 \<and>
         spec_frame_size (spec_UnkTable ! 0) 128000 44100 0 = 208"
proof -
  have "frame_size_of 0x48 128000 44100 0 = Some 208"
    by (simp add: frame_size_of_def)
  moreover have "spec_frame_size (spec_UnkTable ! 0) 128000 44100 0 = 208"
    by (simp add: spec_frame_size_def spec_UnkTable_def)
  ultimately show ?thesis
    using ParseMp3Header_in_range [OF assms] by blast
qed

theorem ParseMp3Header_follows_spec_witness:
  "length [0xFF, 0xFB, 0x90, 0x00 :: u8] = 4 \<and>
   indices_in_range (map unat [0xFF, 0xFB, 0x90, 0x00 :: u8]) \<and>
   (\<exists>frame'. ParseMp3Header [0xFF, 0xFB, 0x90, 0x00] 4 0 zero_frame = Some (0, frame') \<and>
      frame_values frame' =
        \<lparr>fh_sample_rate = 44100, fh_bitrate = 128000, fh_num_channels = 2,
         fh_frame_size = 417, fh_samples_per_channel = 1152, fh_encoder_delay = 0\<rparr>)"
proof -
  have len: "length [0xFF, 0xFB, 0x90, 0x00 :: u8] = 4"
    by simp
  have rng: "indices_in_range (map unat [0xFF, 0xFB, 0x90, 0x00 :: u8])"
    by (simp add: indices_in_range_def spec_unk_idx_def spec_version_idx_def spec_sr_idx_def
        spec_br_idx_def bits_def)
  have val: "ParseFrameHeader (map unat [0xFF, 0xFB, 0x90, 0x00 :: u8]) =
      \<lparr>fh_sample_rate = 44100, fh_bitrate = 128000, fh_num_channels = 2,
       fh_frame_size = 417, fh_samples_per_channel = 1152, fh_encoder_delay = 0\<rparr>"
    by (simp add: ParseFrameHeader_def spec_unk_idx_def spec_version_idx_def spec_sr_idx_def
        spec_br_idx_def spec_padding_bit_def bits_def spec_frame_size_def
        spec_UnkTable_def spec_SampleRateTable_def spec_BitrateTable_def)
  show ?thesis
    using ParseMp3Header_follows_spec [OF len rng, of 4 0 zero_frame] len rng
    unfolding val by blast
qed

text \<open>
  Claim C7. Some 4-byte header makes \<open>ParseMp3Header\<close> compute an index outside its
  table before any validation: \<open>version_idx\<close> is 3 against the three rows of the
  sample-rate table, and \<open>br_idx\<close> is 15 against the fifteen entries of either
  bitrate row; the lookup, and with it the call, fails. (The column index \<open>sr_idx\<close>
  reaches 3 against three columns in the same way.)
\<close>

theorem ParseMp3Header_index_out_of_range:
  "(\<exists>hdr. length hdr = 4 \<and> version_idx (hdr ! 1) = 3 \<and>
      at SamplerateTable (unat (version_idx (hdr ! 1))) = None \<and>
      ParseMp3Header hdr stream_size parse_ofl frame = None) \<and>
   (\<exists>hdr. length hdr = 4 \<and> br_idx (hdr ! 2) = 15 \<and>
      at SamplerateTable (unat (version_idx (hdr ! 1))) \<noteq> None \<and>
      at (BitrateTable ! 0) (unat (br_idx (hdr ! 2))) = None \<and>
      at (BitrateTable ! 1) (unat (br_idx (hdr ! 2))) = None \<and>
      ParseMp3Header hdr stream_size parse_ofl frame = None) \<and>
   (\<exists>hdr. length hdr = 4 \<and> sr_idx (hdr ! 2) = 3 \<and>
      at SamplerateTable (unat (version_idx (hdr ! 1))) \<noteq> None \<and>
      ParseMp3Header hdr stream_size parse_ofl frame = None)"
proof (intro conjI)
  show "\<exists>hdr. length hdr = 4 \<and> version_idx (hdr ! 1) = 3 \<and>
      at SamplerateTable (unat (version_idx (hdr ! 1))) = None \<and>
      ParseMp3Header hdr stream_size parse_ofl frame = None"
    by (rule exI [of _ "[0xFF, 0x08, 0x00, 0x00]"])
      (simp add: version_idx_def at_def SamplerateTable_def ParseMp3Header_def)
  show "\<exists>hdr. length hdr = 4 \<and> br_idx (hdr ! 2) = 15 \<and>
      at SamplerateTable (unat (version_idx (hdr ! 1))) \<noteq> None \<and>
      at (BitrateTable ! 0) (unat (br_idx (hdr ! 2))) = None \<and>
      at (BitrateTable ! 1) (unat (br_idx (hdr ! 2))) = None \<and>
      ParseMp3Header hdr stream_size parse_ofl frame = None"
    by (rule exI [of _ "[0xFF, 0xFB, 0xF0, 0x00]"])
      (simp add: version_idx_def br_idx_def sr_idx_def at_def SamplerateTable_def
        BitrateTable_def ParseMp3Header_def)
  show "\<exists>hdr. length hdr = 4 \<and> sr_idx (hdr ! 2) = 3 \<and>
      at SamplerateTable (unat (version_idx (hdr ! 1))) \<noteq> None \<and>
      ParseMp3Header hdr stream_size parse_ofl frame = None"
    by (rule exI [of _ "[0xFF, 0xFB, 0x9C, 0x00]"])
      (simp add: version_idx_def sr_idx_def at_def SamplerateTable_def ParseMp3Header_def)
qed

text \<open>
  Claim C10, as stated, fails: for the header \<open>FF 08 00 00\<close> the row index is 3, the
  read of the sample-rate table is out of range, and the call has no status at all.
\<close>

theorem ParseMp3Header_no_status_counterexample:
  "\<not> (\<exists>f. ParseMp3Header [0xFF, 0x08, 0x00, 0x00] 4 0 zero_frame = Some (0, f))"
  by (simp add: ParseMp3Header_def version_idx_def at_def SamplerateTable_def)

text \<open>
  Claim C10, amended. For every input buffer the result of \<open>ParseMp3Header\<close> (the
  status and every field stored, or the failure of an out-of-range read) is the same
  for every value of \<open>parse_ofl\<close>, and a status, when there is one, is 0; for every
  4-byte header whose derived indices are in table range there is one.
\<close>

theorem ParseMp3Header_status:
  "ParseMp3Header hdr stream_size parse_ofl frame = ParseMp3Header hdr stream_size parse_ofl' frame \<and>
   (ParseMp3Header hdr stream_size parse_ofl frame = None \<or>
    (\<exists>f. ParseMp3Header hdr stream_size parse_ofl frame = Some (0, f))) \<and>
   (length hdr = 4 \<and> indices_in_range (map unat hdr) \<longrightarrow>
    (\<exists>f. ParseMp3Header hdr stream_size parse_ofl frame = Some (0, f)))"
proof (intro conjI impI)
  show "ParseMp3Header hdr stream_size parse_ofl frame =
      ParseMp3Header hdr stream_size parse_ofl' frame"
    by (simp add: ParseMp3Header_def)
  show "ParseMp3Header hdr stream_size parse_ofl frame = None \<or>
      (\<exists>f. ParseMp3Header hdr stream_size parse_ofl frame = Some (0, f))"
    by (auto simp: ParseMp3Header_def Let_def split: Option.bind_splits)
  show "\<exists>f. ParseMp3Header hdr stream_size parse_ofl frame = Some (0, f)"
    if "length hdr = 4 \<and> indices_in_range (map unat hdr)"
    using ParseMp3Header_in_range [of hdr stream_size parse_ofl frame] that by blast
qed

theorem ParseMp3Header_status_witness:
  "ParseMp3Header [0xFF, 0xFB, 0x90, 0x00] 4 1 zero_frame =
     ParseMp3Header [0xFF, 0xFB, 0x90, 0x00] 4 0 zero_frame \<and>
   (\<exists>f. ParseMp3Header [0xFF, 0xFB, 0x90, 0x00] 4 1 zero_frame = Some (0, f))"
proof -
  have "length [0xFF, 0xFB, 0x90, 0x00 :: u8] = 4 \<and>
      indices_in_range (map unat [0xFF, 0xFB, 0x90, 0x00 :: u8])"
    by (simp add: indices_in_range_def spec_unk_idx_def spec_version_idx_def spec_sr_idx_def
        spec_br_idx_def bits_def)
  then show ?thesis
    using ParseMp3Header_status [of "[0xFF, 0xFB, 0x90, 0x00]" 4 1 zero_frame 0] by blast
qed


section \<open>Properties of the session\<close>

subsection \<open>Reset\<close>

lemma release_live:
  "a \<in> set (live h) \<Longrightarrow>
     release h a = Inr (h\<lparr>live := removeAll a (live h), released := released h @ [a]\<rparr>)"
  by (simp add: release_def)

lemma Reset_effect:
  assumes "owns h s" and "reliable L"
  shows "\<exists>e. Reset L h s =
           Inr (h\<lparr>live := next_addr h # filter (\<lambda>a. a \<notin> set (ctx_addrs (c s))) (live h),
                  released := released h @ ctx_addrs (c s),
                  next_addr := Suc (next_addr h)\<rparr>,
                s\<lparr>c := Some \<lparr>addr = next_addr h, engine = e\<rparr>,
                  decoded_samples := 0, num_frames := 0\<rparr>)"
proof (cases "c s")
  case None
  have "avcodec_alloc_context3 L h (codec s) \<noteq> None"
    using assms(2) by (simp add: reliable_def)
  then obtain e0 where a: "avcodec_alloc_context3 L h (codec s) = Some e0"
    by blast
  have "\<not> snd (avcodec_open2 L e0) <s 0"
    using assms(2) by (simp add: reliable_def)
  then obtain e1 r where o: "avcodec_open2 L e0 = (e1, r)" "\<not> r <s 0"
    by (cases "avcodec_open2 L e0") simp
  show ?thesis
    by (rule exI [of _ e1]) (simp add: Reset_def None alloc_context_def a o ctx_addrs_def)
next
  case (Some ctx)
  define h1 where "h1 = h\<lparr>live := removeAll (addr ctx) (live h),
                          released := released h @ [addr ctx]\<rparr>"
  have lv: "addr ctx \<in> set (live h)"
    using assms(1) by (simp add: owns_def Some ctx_addrs_def)
  have fr: "avcodec_free_context h (Some ctx) = Inr (h1, None)"
    by (simp add: avcodec_free_context_def release_live [OF lv] h1_def)
  have "avcodec_alloc_context3 L h1 (codec s) \<noteq> None"
    using assms(2) by (simp add: reliable_def)
  then obtain e0 where a: "avcodec_alloc_context3 L h1 (codec s) = Some e0"
    by blast
  have "\<not> snd (avcodec_open2 L e0) <s 0"
    using assms(2) by (simp add: reliable_def)
  then obtain e1 r where o: "avcodec_open2 L e0 = (e1, r)" "\<not> r <s 0"
    by (cases "avcodec_open2 L e0") simp
  have flt: "removeAll (addr ctx) (live h) = filter (\<lambda>a. a \<noteq> addr ctx) (live h)"
    unfolding removeAll_filter_not_eq by (rule filter_cong) auto
  have "Reset L h s =
      Inr (h1\<lparr>live := next_addr h1 # live h1, next_addr := Suc (next_addr h1)\<rparr>,
           s\<lparr>c := Some \<lparr>addr = next_addr h1, engine = e1\<rparr>,
             decoded_samples := 0, num_frames := 0\<rparr>)"
    by (simp add: Reset_def Some fr av_free_def alloc_context_def a o)
  then have "Reset L h s =
      Inr (h\<lparr>live := next_addr h # filter (\<lambda>a. a \<notin> set (ctx_addrs (c s))) (live h),
             released := released h @ ctx_addrs (c s),
             next_addr := Suc (next_addr h)\<rparr>,
           s\<lparr>c := Some \<lparr>addr = next_addr h, engine = e1\<rparr>,
             decoded_samples := 0, num_frames := 0\<rparr>)"
    by (simp add: h1_def flt Some ctx_addrs_def)
  then show ?thesis ..
qed

lemma Reset_keeps_invariants:
  assumes "heap_ok h" and "owns h s"
  shows "heap_ok (h\<lparr>live := next_addr h # filter (\<lambda>a. a \<notin> set (ctx_addrs (c s))) (live h),
                    released := released h @ ctx_addrs (c s),
                    next_addr := Suc (next_addr h)\<rparr>)"
    and "owns (h\<lparr>live := next_addr h # filter (\<lambda>a. a \<notin> set (ctx_addrs (c s))) (live h),
                 released := released h @ ctx_addrs (c s),
                 next_addr := Suc (next_addr h)\<rparr>)
           (s\<lparr>c := Some \<lparr>addr = next_addr h, engine = e\<rparr>,
              decoded_samples := 0, num_frames := 0\<rparr>)"
  using assms unfolding heap_ok_def owns_def ctx_addrs_def
  by (cases "c s"; auto simp: list_all_iff less_Suc_eq)+



lemma test_state_constructed:
  "AjmMp3Decoder_new test_lib empty_heap = Inr (test_heap, test_session)"
  by (simp add: AjmMp3Decoder_new_def test_lib_def empty_heap_def test_heap_def test_session_def
      Reset_def alloc_context_def AV_CODEC_ID_MP3_def)

lemma test_state_ok: "heap_ok test_heap" "owns test_heap test_session" "reliable test_lib"
  by (simp_all add: heap_ok_def owns_def reliable_def test_heap_def test_session_def
      test_lib_def ctx_addrs_def)

text \<open>
  Claim C8. From any state in which the heap is well formed and the session owns its
  engine context, with a library whose allocation and opening succeed, one
  \<open>Reset\<close> and a second one right after it both return with
  \<open>decoded_samples = 0\<close> and \<open>num_frames = 0\<close>. Each releases the engine context it
  found exactly once (the release log grows by that one context, and the log never
  holds a context twice) before the new one is allocated, only the new context is
  added to the live ones, and the splitter context is the one the session had.
\<close>

theorem Reset_twice:
  assumes "heap_ok h" and "owns h s" and "reliable L"
  shows "\<exists>h1 s1 h2 s2.
           Reset L h s = Inr (h1, s1) \<and> Reset L h1 s1 = Inr (h2, s2) \<and>
           decoded_samples s1 = 0 \<and> num_frames s1 = 0 \<and>
           decoded_samples s2 = 0 \<and> num_frames s2 = 0 \<and>
           parser s1 = parser s \<and> parser s2 = parser s \<and>
           released h1 = released h @ ctx_addrs (c s) \<and>
           live h1 = next_addr h # filter (\<lambda>a. a \<notin> set (ctx_addrs (c s))) (live h) \<and>
           ctx_addrs (c s1) = [next_addr h] \<and>
           released h2 = released h1 @ [next_addr h] \<and>
           live h2 = next_addr h1 # filter (\<lambda>a. a \<noteq> next_addr h) (live h1) \<and>
           ctx_addrs (c s2) = [next_addr h1] \<and>
           next_addr h1 = Suc (next_addr h) \<and> next_addr h2 = Suc (next_addr h1) \<and>
           heap_ok h1 \<and> owns h1 s1 \<and> heap_ok h2 \<and> owns h2 s2"
proof -
  obtain e1 h1 s1 where
    h1: "h1 = h\<lparr>live := next_addr h # filter (\<lambda>a. a \<notin> set (ctx_addrs (c s))) (live h),
                 released := released h @ ctx_addrs (c s), next_addr := Suc (next_addr h)\<rparr>"
    and s1: "s1 = s\<lparr>c := Some \<lparr>addr = next_addr h, engine = e1\<rparr>,
                    decoded_samples := 0, num_frames := 0\<rparr>"
    and r1: "Reset L h s = Inr (h1, s1)"
    using Reset_effect [OF assms(2,3)] by blast
  have ok1: "heap_ok h1" "owns h1 s1"
    unfolding h1 s1 by (rule Reset_keeps_invariants [OF assms(1,2)])+
  obtain e2 h2 s2 where
    h2: "h2 = h1\<lparr>live := next_addr h1 # filter (\<lambda>a. a \<notin> set (ctx_addrs (c s1))) (live h1),
                  released := released h1 @ ctx_addrs (c s1), next_addr := Suc (next_addr h1)\<rparr>"
    and s2: "s2 = s1\<lparr>c := Some \<lparr>addr = next_addr h1, engine = e2\<rparr>,
                     decoded_samples := 0, num_frames := 0\<rparr>"
    and r2: "Reset L h1 s1 = Inr (h2, s2)"
    using Reset_effect [OF ok1(2) assms(3)] by blast
  have ok2: "heap_ok h2" "owns h2 s2"
    unfolding h2 s2 by (rule Reset_keeps_invariants [OF ok1])+
  have c1: "ctx_addrs (c s1) = [next_addr h]"
    by (simp add: s1 ctx_addrs_def)
  have "decoded_samples s1 = 0 \<and> num_frames s1 = 0 \<and> decoded_samples s2 = 0 \<and>
      num_frames s2 = 0 \<and> parser s1 = parser s \<and> parser s2 = parser s"
    by (simp add: s1 s2)
  moreover have "released h1 = released h @ ctx_addrs (c s) \<and>
      live h1 = next_addr h # filter (\<lambda>a. a \<notin> set (ctx_addrs (c s))) (live h)"
    by (simp add: h1)
  moreover have "released h2 = released h1 @ [next_addr h] \<and>
      live h2 = next_addr h1 # filter (\<lambda>a. a \<noteq> next_addr h) (live h1) \<and>
      next_addr h1 = Suc (next_addr h) \<and> next_addr h2 = Suc (next_addr h1)"
    by (simp add: h2 c1 h1)
  moreover have "ctx_addrs (c s2) = [next_addr h1]"
    by (simp add: s2 ctx_addrs_def)
  ultimately show ?thesis
    using r1 r2 ok1 ok2 c1 by blast
qed

theorem Reset_twice_witness:
  "heap_ok test_heap \<and> owns test_heap test_session \<and> reliable test_lib \<and>
   (\<exists>h1 s1 h2 s2.
      Reset test_lib test_heap test_session = Inr (h1, s1) \<and>
      Reset test_lib h1 s1 = Inr (h2, s2) \<and>
      released h1 = [0] \<and> live h1 = [1] \<and> released h2 = [0, 1] \<and> live h2 = [2] \<and>
      decoded_samples s2 = 0 \<and> num_frames s2 = 0 \<and> parser s2 = parser test_session)"
proof -
  obtain h1 s1 h2 s2 where r:
    "Reset test_lib test_heap test_session = Inr (h1, s1)" "Reset test_lib h1 s1 = Inr (h2, s2)"
    "decoded_samples s2 = 0" "num_frames s2 = 0" "parser s2 = parser test_session"
    and h: "released h1 = released test_heap @ ctx_addrs (c test_session)"
    "live h1 = next_addr test_heap #
       filter (\<lambda>a. a \<notin> set (ctx_addrs (c test_session))) (live test_heap)"
    "released h2 = released h1 @ [next_addr test_heap]"
    "live h2 = next_addr h1 # filter (\<lambda>a. a \<noteq> next_addr test_heap) (live h1)"
    "next_addr h1 = Suc (next_addr test_heap)"
    using Reset_twice [OF test_state_ok] by blast
  have "released h1 = [0] \<and> live h1 = [1] \<and> released h2 = [0, 1] \<and> live h2 = [2]"
    using h by (simp add: test_heap_def test_session_def ctx_addrs_def)
  then show ?thesis
    using r test_state_ok by blast
qed



subsection \<open>Decode on an empty input or output buffer\<close>

text \<open>
  Claim C5. For every session state, \<open>Decode\<close> with \<open>in_size = 0\<close> or \<open>out_size = 0\<close>
  returns at once: the returned pair is the two sizes passed in, the session (and
  with it \<open>decoded_samples\<close> and \<open>num_frames\<close>) is unchanged, nothing is stored through
  the output pointer and no block is delivered. (Lines 122--124 still run: a
  job-output record with a multi-frame part has the session's \<open>num_frames\<close> added.)
\<close>

theorem Decode_empty_buffer:
  assumes "isz = 0 \<or> osz = 0"
  shows "Decode L g s input isz osz output =
           Some (Inr (\<lparr>self = s, glob = g, buf = input, in_size = isz, out_buf = [],
                       out_size = osz, pkt = av_packet_alloc, delivered = []\<rparr>,
                      add_frames output (num_frames s), isz, osz))"
  using assms unfolding Decode_def
  by (subst decode_loop.simps) auto

theorem Decode_empty_buffer_witness:
  "((0::u32) = 0 \<or> (16::u32) = 0) \<and>
   Decode test_lib no_globals test_session [1, 2, 3] 0 16 job_output =
     Some (Inr (\<lparr>self = test_session, glob = no_globals, buf = [1, 2, 3], in_size = 0,
                 out_buf = [], out_size = 16, pkt = av_packet_alloc, delivered = []\<rparr>,
                job_output, 0, 16))"
  using Decode_empty_buffer [of 0 16 test_lib no_globals test_session "[1, 2, 3]" job_output]
  by (simp add: add_frames_def job_output_def test_session_def)

subsection \<open>Decode when a block does not fit\<close>

text \<open>
  Claim C2 asks that a block larger than the remaining output capacity is not
  written and not counted. The code does not compare the two: with one input byte,
  an output capacity of 2 bytes and an engine that returns one 4-byte block, the call
  stores 4 bytes through the output pointer (2 of them past the end), counts the
  block in both counters, and returns a remaining output size of \<open>2 - 4\<close> modulo
  \<open>2 ^ 32\<close>.
\<close>

theorem Decode_overruns_output:
  "observe (Decode test_lib no_globals test_session [0] 1 2 job_output) =
     Some (Inr ([0, 1, 2, 3], 2, 1, 1, \<lparr>p_mframe = Some \<lparr>mframe_num_frames = 1\<rparr>\<rparr>,
                0, 0xFFFFFFFE))"
  by code_simp

subsection \<open>The aggregate frame counter\<close>

text \<open>
  Claim C4 asks that the aggregate counter of the job-output record grows by the
  frames of this invocation. Line 123 adds the member \<open>num_frames\<close>, the count since
  the last reset. A first call that produces one frame leaves the session at
  \<open>num_frames = 1\<close> and the aggregate at 1; a second call on that session, which again
  produces one frame, raises the aggregate from 1 to 3.
\<close>

theorem Decode_adds_cumulative_count:
  "map_option (map_sum id (\<lambda>(st, out, szs). self st))
     (Decode test_lib no_globals test_session [0] 1 16 job_output) = Some (Inr used_session) \<and>
   observe (Decode test_lib no_globals test_session [0] 1 16 job_output) =
     Some (Inr ([0, 1, 2, 3], 2, 1, 1, \<lparr>p_mframe = Some \<lparr>mframe_num_frames = 1\<rparr>\<rparr>, 0, 12)) \<and>
   observe (Decode test_lib no_globals used_session [0] 1 16
              \<lparr>p_mframe = Some \<lparr>mframe_num_frames = 1\<rparr>\<rparr>) =
     Some (Inr ([0, 1, 2, 3], 4, 2, 1, \<lparr>p_mframe = Some \<lparr>mframe_num_frames = 3\<rparr>\<rparr>, 0, 12))"
  by code_simp


subsection \<open>What one step of Decode changes\<close>

lemma parse_step_Inr:
  assumes "parse_step L st = Inr st1"
  shows "\<exists>p ctx p' e' d sz ret.
           parser (self st) = Some p \<and> c (self st) = Some ctx \<and>
           av_parser_parse2 L p (engine ctx) (buf st) (in_size st) = (p', e', d, sz, ret) \<and>
           \<not> ret <s 0 \<and>
           st1 = st\<lparr>self := (self st)\<lparr>parser := Some p', c := Some (ctx\<lparr>engine := e'\<rparr>)\<rparr>,
                    pkt := (pkt st)\<lparr>pkt_data := d, pkt_size := sz\<rparr>,
                    buf := drop (unat ret) (buf st),
                    in_size := in_size st - ret\<rparr>"
  using assms unfolding parse_step_def
  by (auto split: option.splits prod.splits if_splits)

lemma send_step_Inr:
  assumes "send_step L st = Inr (ret, st2)"
  shows "\<exists>ctx e' pk. c (self st) = Some ctx \<and> \<not> ret <s 0 \<and>
           st2 = st\<lparr>self := (self st)\<lparr>c := Some (ctx\<lparr>engine := e'\<rparr>)\<rparr>, pkt := pk\<rparr>"
  using assms unfolding send_step_def Let_def
  by (auto split: option.splits prod.splits if_splits)

lemma receive_step_Inr:
  assumes "receive_step L st = Inr (ret, st', fo)"
  shows "\<exists>ctx e' fr. c (self st) = Some ctx \<and>
           avcodec_receive_frame L (engine ctx) = (e', fr, ret) \<and>
           st' = st\<lparr>self := (self st)\<lparr>c := Some (ctx\<lparr>engine := e'\<rparr>)\<rparr>, glob := glob st'\<rparr> \<and>
           (fo = None \<or> (ret \<noteq> AVERROR_EAGAIN \<and> ret \<noteq> AVERROR_EOF \<and> \<not> ret <s 0))"
  using assms unfolding receive_step_def Let_def
  by (auto split: option.splits prod.splits if_splits)


lemma receive_step_state:
  assumes "receive_step L st = Inr (ret, st', fo)"
  shows "\<exists>ctx e' g. st' = st\<lparr>self := (self st)\<lparr>c := Some (ctx\<lparr>engine := e'\<rparr>)\<rparr>, glob := g\<rparr>"
  using receive_step_Inr [OF assms] by blast

lemma drain_invariant:
  fixes L :: "('p, 'e) libav"
  assumes run: "drain L ret st = Some (Inr st')" and init: "P st"
    and recv: "\<And>s r s' fo. P s \<Longrightarrow> receive_step L s = Inr (r, s', fo) \<Longrightarrow> P s'"
    and dlv: "\<And>s f. P s \<Longrightarrow> P (deliver f s)"
  shows "P st'"
proof -
  have "L = L \<longrightarrow> P st \<longrightarrow> (\<forall>x. (Inr st' :: error + ('p, 'e) decode_state) = Inr x \<longrightarrow> P x)"
  proof (rule drain.raw_induct
      [where P = "\<lambda>L' ret st r. L' = L \<longrightarrow> P st \<longrightarrow> (\<forall>x. r = Inr x \<longrightarrow> P x)", OF _ run])
    fix drain' :: "('p, 'e) libav \<Rightarrow> 32 word \<Rightarrow> ('p, 'e) decode_state \<Rightarrow>
        (error + ('p, 'e) decode_state) option"
    fix L' ret s r
    assume IH: "\<And>L' ret s r. drain' L' ret s = Some r \<Longrightarrow>
        L' = L \<longrightarrow> P s \<longrightarrow> (\<forall>x. r = Inr x \<longrightarrow> P x)"
    assume body: "(if 0 \<le>s ret then
          (case receive_step L' s of
             Inl e \<Rightarrow> Some (Inl e)
           | Inr (ret', st', None) \<Rightarrow> Some (Inr st')
           | Inr (ret', st', Some frame) \<Rightarrow> drain' L' ret' (deliver frame st'))
        else Some (Inr s)) = Some r"
    show "L' = L \<longrightarrow> P s \<longrightarrow> (\<forall>x. r = Inr x \<longrightarrow> P x)"
    proof (intro impI allI)
      fix x
      assume L: "L' = L" and Ps: "P s" and r: "r = Inr x"
      show "P x"
      proof (cases "0 \<le>s ret")
        case False
        with body r Ps show ?thesis by simp
      next
        case True
        show ?thesis
        proof (cases "receive_step L s")
          case (Inl e)
          with body True L r show ?thesis by simp
        next
          case (Inr t)
          obtain ret' s' fo where t: "t = (ret', s', fo)"
            by (cases t)
          have Ps': "P s'"
            using recv [OF Ps] Inr t by simp
          show ?thesis
          proof (cases fo)
            case None
            with body True L r Inr t Ps' show ?thesis by simp
          next
            case (Some frame)
            with body True L Inr t have "drain' L ret' (deliver frame s') = Some r"
              by simp
            from IH [OF this] dlv [OF Ps'] r show ?thesis
              by simp
          qed
        qed
      qed
    qed
  qed
  with init show ?thesis
    by simp
qed

lemma drain_terminates:
  assumes "engine_drains L m"
  shows "\<exists>r. drain L ret st = Some r"
proof (induction k \<equiv> "case c (self st) of None \<Rightarrow> 0 | Some ctx \<Rightarrow> m (engine ctx)"
    arbitrary: ret st rule: less_induct)
  case less
  show ?case
  proof (cases "0 \<le>s ret")
    case False
    then show ?thesis
      by (subst drain.simps) simp
  next
    case True
    show ?thesis
    proof (cases "receive_step L st")
      case (Inl e)
      with True show ?thesis
        by (subst drain.simps) simp
    next
      case (Inr t)
      obtain ret' st' fo where t: "t = (ret', st', fo)"
        by (cases t)
      show ?thesis
      proof (cases fo)
        case None
        with True Inr t show ?thesis
          by (subst drain.simps) simp
      next
        case (Some frame)
        from receive_step_Inr [OF Inr [unfolded t]] Some
        obtain ctx e' fr where f: "c (self st) = Some ctx"
          "avcodec_receive_frame L (engine ctx) = (e', fr, ret')"
          "st' = st\<lparr>self := (self st)\<lparr>c := Some (ctx\<lparr>engine := e'\<rparr>)\<rparr>, glob := glob st'\<rparr>"
          "ret' \<noteq> AVERROR_EAGAIN" "ret' \<noteq> AVERROR_EOF" "\<not> ret' <s 0"
          by auto
        have "m e' < m (engine ctx)"
          using assms f(2,4,5,6) unfolding engine_drains_def
          by (auto dest!: spec [of _ "engine ctx"])
        moreover have "c (self (deliver frame st')) = Some (ctx\<lparr>engine := e'\<rparr>)"
          by (subst f(3)) (simp add: deliver_def Let_def)
        ultimately obtain r where "drain L ret' (deliver frame st') = Some r"
          using less [of "deliver frame st'" ret'] f(1) by auto
        with True Inr t Some show ?thesis
          by (subst drain.simps) simp
      qed
    qed
  qed
qed


lemma decode_loop_invariant:
  fixes L :: "('p, 'e) libav"
  assumes run: "decode_loop L st = Some (Inr st')" and init: "P st"
    and prs: "\<And>s s'. P s \<Longrightarrow> parse_step L s = Inr s' \<Longrightarrow> P s'"
    and snd: "\<And>s r s'. P s \<Longrightarrow> send_step L s = Inr (r, s') \<Longrightarrow> P s'"
    and recv: "\<And>s r s' fo. P s \<Longrightarrow> receive_step L s = Inr (r, s', fo) \<Longrightarrow> P s'"
    and dlv: "\<And>s f. P s \<Longrightarrow> P (deliver f s)"
  shows "P st' \<and> \<not> (0 < in_size st' \<and> 0 < out_size st')"
proof -
  have "L = L \<longrightarrow> P st \<longrightarrow>
      (\<forall>x. (Inr st' :: error + ('p, 'e) decode_state) = Inr x \<longrightarrow>
         P x \<and> \<not> (0 < in_size x \<and> 0 < out_size x))"
  proof (rule decode_loop.raw_induct
      [where P = "\<lambda>L' st r. L' = L \<longrightarrow> P st \<longrightarrow>
         (\<forall>x. r = Inr x \<longrightarrow> P x \<and> \<not> (0 < in_size x \<and> 0 < out_size x))", OF _ run])
    fix loop :: "('p, 'e) libav \<Rightarrow> ('p, 'e) decode_state \<Rightarrow>
        (error + ('p, 'e) decode_state) option"
    fix L' s r
    assume IH: "\<And>L' s r. loop L' s = Some r \<Longrightarrow> L' = L \<longrightarrow> P s \<longrightarrow>
        (\<forall>x. r = Inr x \<longrightarrow> P x \<and> \<not> (0 < in_size x \<and> 0 < out_size x))"
    assume body: "(if 0 < in_size s \<and> 0 < out_size s then
          (case parse_step L' s of
             Inl e \<Rightarrow> Some (Inl e)
           | Inr st1 \<Rightarrow>
               if pkt_size (pkt st1) \<noteq> 0 then
                 (case send_step L' st1 of
                    Inl e \<Rightarrow> Some (Inl e)
                  | Inr (ret, st2) \<Rightarrow>
                      Option.bind (drain L' ret st2)
                        (\<lambda>r. case r of Inl e \<Rightarrow> Some (Inl e) | Inr st3 \<Rightarrow> loop L' st3))
               else loop L' st1)
        else Some (Inr s)) = Some r"
    show "L' = L \<longrightarrow> P s \<longrightarrow>
        (\<forall>x. r = Inr x \<longrightarrow> P x \<and> \<not> (0 < in_size x \<and> 0 < out_size x))"
    proof (intro impI allI)
      fix x
      assume L: "L' = L" and Ps: "P s" and r: "r = Inr x"
      show "P x \<and> \<not> (0 < in_size x \<and> 0 < out_size x)"
      proof (cases "0 < in_size s \<and> 0 < out_size s")
        case False
        with body r Ps show ?thesis by auto
      next
        case True
        show ?thesis
        proof (cases "parse_step L s")
          case (Inl e)
          with body True L r show ?thesis by simp
        next
          case (Inr s1)
          have P1: "P s1"
            by (rule prs [OF Ps Inr])
          show ?thesis
          proof (cases "pkt_size (pkt s1) \<noteq> 0")
            case False
            with body True L Inr have "loop L s1 = Some r"
              by simp
            from IH [OF this] P1 r show ?thesis
              by simp
          next
            case pk: True
            show ?thesis
            proof (cases "send_step L s1")
              case (Inl e)
              with body True L r Inr pk show ?thesis by simp
            next
              case snd_ok: (Inr t)
              obtain ret s2 where t: "t = (ret, s2)"
                by (cases t)
              have P2: "P s2"
                using snd [OF P1] snd_ok t by simp
              from body True L Inr pk snd_ok t
              have b: "Option.bind (drain L ret s2)
                  (\<lambda>r. case r of Inl e \<Rightarrow> Some (Inl e) | Inr st3 \<Rightarrow> loop L st3) = Some r"
                by simp
              then obtain r2 where d: "drain L ret s2 = Some r2"
                and k: "(case r2 of Inl e \<Rightarrow> Some (Inl e) | Inr st3 \<Rightarrow> loop L st3) = Some r"
                by (auto simp: bind_eq_Some_conv)
              show ?thesis
              proof (cases r2)
                case (Inl e)
                with k r show ?thesis by simp
              next
                case (Inr s3)
                have P3: "P s3"
                  by (rule drain_invariant [OF d [unfolded Inr] P2 recv dlv])
                from k Inr have "loop L s3 = Some r"
                  by simp
                from IH [OF this] P3 r show ?thesis
                  by simp
              qed
            qed
          qed
        qed
      qed
    qed
  qed
  with init show ?thesis
    by simp
qed

lemma parse_step_consumes:
  assumes "splitter_advances L" and "parse_step L st = Inr st1" and "0 < in_size st"
  shows "unat (in_size st1) < unat (in_size st)"
proof -
  from parse_step_Inr [OF assms(2)] obtain p ctx p' e' d sz ret where f:
    "av_parser_parse2 L p (engine ctx) (buf st) (in_size st) = (p', e', d, sz, ret)"
    "\<not> ret <s 0"
    and st1: "st1 = st\<lparr>self := (self st)\<lparr>parser := Some p', c := Some (ctx\<lparr>engine := e'\<rparr>)\<rparr>,
                    pkt := (pkt st)\<lparr>pkt_data := d, pkt_size := sz\<rparr>,
                    buf := drop (unat ret) (buf st),
                    in_size := in_size st - ret\<rparr>"
    by blast
  have f3: "in_size st1 = in_size st - ret"
    by (simp add: st1)
  have "in_size st = 0 \<or> ret <s 0 \<or> (ret \<noteq> 0 \<and> ret \<le> in_size st)"
    using assms(1) f(1) unfolding splitter_advances_def
    by (auto dest!: spec [of _ p] spec [of _ "engine ctx"] spec [of _ "buf st"]
        spec [of _ "in_size st"])
  with f(2) assms(3) have r: "ret \<noteq> 0" "ret \<le> in_size st"
    by auto
  then have "unat (in_size st - ret) = unat (in_size st) - unat ret" "0 < unat ret"
    "unat ret \<le> unat (in_size st)"
    by (simp_all add: unat_sub unat_gt_0 word_le_nat_alt)
  then show ?thesis
    by (simp add: f3)
qed

lemma drain_keeps_in_size:
  assumes "drain L ret st = Some (Inr st')"
  shows "in_size st' = in_size st"
proof (rule drain_invariant [OF assms, where P = "\<lambda>s. in_size s = in_size st"])
  show "in_size st = in_size st" ..
next
  fix s r s' fo
  assume "in_size s = in_size st" "receive_step L s = Inr (r, s', fo)"
  then show "in_size s' = in_size st"
    using receive_step_state [of L s r s' fo] by auto
next
  fix s :: "('a, 'b) decode_state" and f
  assume "in_size s = in_size st"
  then show "in_size (deliver f s) = in_size st"
    by (simp add: deliver_def Let_def)
qed


lemma send_step_keeps_in_size:
  assumes "send_step L st = Inr (ret, st2)"
  shows "in_size st2 = in_size st"
  using send_step_Inr [OF assms] by auto

lemma decode_loop_terminates:
  assumes adv: "splitter_advances L" and drn: "engine_drains L m"
  shows "\<exists>r. decode_loop L st = Some r"
proof (induction k \<equiv> "unat (in_size st)" arbitrary: st rule: less_induct)
  case less
  show ?case
  proof (cases "0 < in_size st \<and> 0 < out_size st")
    case False
    then show ?thesis
      by (subst decode_loop.simps) auto
  next
    case True
    show ?thesis
    proof (cases "parse_step L st")
      case (Inl e)
      with True show ?thesis
        by (subst decode_loop.simps) simp
    next
      case (Inr st1)
      have lt: "unat (in_size st1) < unat (in_size st)"
        using parse_step_consumes [OF adv Inr] True by simp
      show ?thesis
      proof (cases "pkt_size (pkt st1) \<noteq> 0")
        case False
        obtain r where "decode_loop L st1 = Some r"
          using less [OF lt] by blast
        with True Inr False show ?thesis
          by (subst decode_loop.simps) simp
      next
        case pk: True
        show ?thesis
        proof (cases "send_step L st1")
          case (Inl e)
          with True Inr pk show ?thesis
            by (subst decode_loop.simps) simp
        next
          case snd_ok: (Inr t)
          obtain ret st2 where t: "t = (ret, st2)"
            by (cases t)
          have i2: "in_size st2 = in_size st1"
            using send_step_keeps_in_size snd_ok t by blast
          obtain r2 where d: "drain L ret st2 = Some r2"
            using drain_terminates [OF drn] by blast
          show ?thesis
          proof (cases r2)
            case (Inl e)
            with True Inr pk snd_ok t d show ?thesis
              by (subst decode_loop.simps) simp
          next
            case r2: (Inr st3)
            have "in_size st3 = in_size st2"
              using drain_keeps_in_size d r2 by blast
            with i2 lt have "unat (in_size st3) < unat (in_size st)"
              by simp
            then obtain r where "decode_loop L st3 = Some r"
              using less by blast
            with True Inr pk snd_ok t d r2 show ?thesis
              by (subst decode_loop.simps) simp
          qed
        qed
      qed
    qed
  qed
qed

lemma word_one_le: "n \<noteq> 0 \<Longrightarrow> (1 :: 32 word) \<le> n"
  using inc_le [of 0 n] by (simp add: word_neq_0_conv)

lemma test_lib_ok: "splitter_advances test_lib" "engine_drains test_lib (\<lambda>e. e)"
  by (auto simp: splitter_advances_def engine_drains_def test_lib_def word_one_le
      split: nat.splits)

subsection \<open>Termination of Decode\<close>

lemma stalled_parse: "parse_step stalled_lib stalled_state = Inr stalled_state"
  by (simp add: parse_step_def stalled_lib_def test_lib_def stalled_state_def test_session_def
      av_packet_alloc_def)

lemma stalled_never:
  assumes "decode_loop L st = Some r"
  shows "\<not> (L = stalled_lib \<and> st = stalled_state)"
proof (rule decode_loop.raw_induct
    [where P = "\<lambda>L st r. \<not> (L = stalled_lib \<and> st = stalled_state)", OF _ assms])
  fix loop :: "(unit, nat) libav \<Rightarrow> (unit, nat) decode_state \<Rightarrow>
      (error + (unit, nat) decode_state) option"
  fix L' st' r'
  assume IH: "\<And>L st r. loop L st = Some r \<Longrightarrow> \<not> (L = stalled_lib \<and> st = stalled_state)"
  assume body: "(if 0 < in_size st' \<and> 0 < out_size st' then
        (case parse_step L' st' of
           Inl e \<Rightarrow> Some (Inl e)
         | Inr st1 \<Rightarrow>
             if pkt_size (pkt st1) \<noteq> 0 then
               (case send_step L' st1 of
                  Inl e \<Rightarrow> Some (Inl e)
                | Inr (ret, st2) \<Rightarrow>
                    Option.bind (drain L' ret st2)
                      (\<lambda>r. case r of Inl e \<Rightarrow> Some (Inl e) | Inr st3 \<Rightarrow> loop L' st3))
             else loop L' st1)
      else Some (Inr st')) = Some r'"
  show "\<not> (L' = stalled_lib \<and> st' = stalled_state)"
  proof
    assume eq: "L' = stalled_lib \<and> st' = stalled_state"
    have "0 < in_size stalled_state \<and> 0 < out_size stalled_state"
      "pkt_size (pkt stalled_state) = 0"
      by (simp_all add: stalled_state_def av_packet_alloc_def)
    with body eq have "loop stalled_lib stalled_state = Some r'"
      by (simp add: stalled_parse)
    with IH show False
      by blast
  qed
qed

text \<open>
  Claim C3, as stated, fails: the loop of lines 83--120 has no exit for a splitter
  that makes no progress. With a splitter that consumes no byte and produces no
  packet, one input byte and room in the output, \<open>Decode\<close> never returns.
\<close>

theorem Decode_stalls_counterexample:
  "Decode stalled_lib no_globals test_session [0] 1 16 job_output = None"
proof (cases "decode_loop stalled_lib stalled_state")
  case None
  then show ?thesis
    by (simp add: Decode_def stalled_state_def)
next
  case (Some r)
  then show ?thesis
    using stalled_never by blast
qed

lemma decode_loop_exit:
  assumes "in_size st = 0 \<or> out_size st = 0"
  shows "decode_loop L st = Some (Inr st)"
  using assms by (subst decode_loop.simps) auto

text \<open>
  Claim C3, amended. The loop of \<open>Decode\<close> exits when the remaining input size or the
  remaining output size reaches 0, and only then: it has no exit for a splitter that
  makes no progress. \<open>Decode\<close> returns (or aborts on an assertion) on every input
  provided that every call of the splitter on a non-empty window fails or consumes
  at least one and at most \<open>in_size\<close> bytes, and that the engine hands out only
  finitely many frames before it reports that none is ready.
\<close>

theorem Decode_terminates:
  assumes "splitter_advances L" and "engine_drains L m"
  shows "(\<exists>r. Decode L g s input isz osz output = Some r) \<and>
         (\<forall>st out isz' osz'.
            Decode L g s input isz osz output = Some (Inr (st, out, isz', osz')) \<longrightarrow>
            isz' = 0 \<or> osz' = 0) \<and>
         (\<forall>st. in_size st = 0 \<or> out_size st = 0 \<longrightarrow> decode_loop L st = Some (Inr st))"
proof (intro conjI allI impI)
  let ?st0 = "\<lparr>self = s, glob = g, buf = input, in_size = isz, out_buf = [], out_size = osz,
                pkt = av_packet_alloc, delivered = []\<rparr>"
  obtain r where r: "decode_loop L ?st0 = Some r"
    using decode_loop_terminates [OF assms] by blast
  then show "\<exists>r. Decode L g s input isz osz output = Some r"
    by (cases r) (simp_all add: Decode_def)
  show "decode_loop L st = Some (Inr st)" if "in_size st = 0 \<or> out_size st = 0" for st
    using that by (rule decode_loop_exit)
  fix st out isz' osz'
  assume "Decode L g s input isz osz output = Some (Inr (st, out, isz', osz'))"
  with r have run: "decode_loop L ?st0 = Some (Inr st)"
    and sz: "isz' = in_size st" "osz' = out_size st"
    by (cases r; simp add: Decode_def)+
  have "\<not> (0 < in_size st \<and> 0 < out_size st)"
    using decode_loop_invariant [OF run, where P = "\<lambda>s. True"] by simp
  then show "isz' = 0 \<or> osz' = 0"
    unfolding sz word_neq_0_conv [symmetric] by blast
qed

text \<open>
  An instance: five input bytes and room for two blocks. The call stops when the
  output is full, with three bytes of input left; a state whose output size is 0 is
  returned by the loop as it is.
\<close>

theorem Decode_terminates_witness:
  "splitter_advances test_lib \<and> engine_drains test_lib (\<lambda>e. e) \<and>
   (\<exists>r. Decode test_lib no_globals test_session [1, 2, 3, 4, 5] 5 8 job_output = Some r) \<and>
   observe (Decode test_lib no_globals test_session [1, 2, 3, 4, 5] 5 8 job_output) =
     Some (Inr ([0, 1, 2, 3, 0, 1, 2, 3], 4, 2, 2,
                \<lparr>p_mframe = Some \<lparr>mframe_num_frames = 2\<rparr>\<rparr>, 3, 0)) \<and>
   decode_loop test_lib (stalled_state\<lparr>out_size := 0\<rparr>) =
     Some (Inr (stalled_state\<lparr>out_size := 0\<rparr>))"
proof -
  have "observe (Decode test_lib no_globals test_session [1, 2, 3, 4, 5] 5 8 job_output) =
     Some (Inr ([0, 1, 2, 3, 0, 1, 2, 3], 4, 2, 2,
                \<lparr>p_mframe = Some \<lparr>mframe_num_frames = 2\<rparr>\<rparr>, 3, 0))"
    by code_simp
  moreover have "out_size (stalled_state\<lparr>out_size := 0\<rparr>) = 0"
    by simp
  ultimately show ?thesis
    using Decode_terminates
      [OF test_lib_ok, of no_globals test_session "[1, 2, 3, 4, 5]" 5 8 job_output]
      test_lib_ok by blast
qed

subsection \<open>The counters\<close>

lemma counted_refl: "counted st st"
  by (simp add: counted_def)

lemma counted_same:
  assumes "counted st0 s" and "delivered s' = delivered s"
    and "num_frames (self s') = num_frames (self s)"
    and "decoded_samples (self s') = decoded_samples (self s)"
  shows "counted st0 s'"
  using assms by (simp add: counted_def)

lemma counted_deliver:
  assumes "counted st0 s"
  shows "counted st0 (deliver f s)"
proof -
  from assms obtain fs where fs: "delivered s = delivered st0 @ fs"
    "num_frames (self s) = num_frames (self st0) + of_nat (length fs)"
    "decoded_samples (self s) =
       decoded_samples (self st0) + sum_list (map (\<lambda>f. scast (nb_samples f)) fs)"
    by (auto simp: counted_def)
  show ?thesis
    unfolding counted_def
    by (rule exI [of _ "fs @ [f]"]) (simp add: deliver_def Let_def fs)
qed

lemma counted_parse_step:
  assumes "counted st0 s" and "parse_step L s = Inr s'"
  shows "counted st0 s'"
  using parse_step_Inr [OF assms(2)] by (auto intro!: counted_same [OF assms(1)])

lemma counted_send_step:
  assumes "counted st0 s" and "send_step L s = Inr (r, s')"
  shows "counted st0 s'"
  using send_step_Inr [OF assms(2)] by (auto intro!: counted_same [OF assms(1)])

lemma counted_receive_step:
  assumes "counted st0 s" and "receive_step L s = Inr (r, s', fo)"
  shows "counted st0 s'"
proof -
  from receive_step_state [OF assms(2)] obtain ctx e' g where
    "s' = s\<lparr>self := (self s)\<lparr>c := Some (ctx\<lparr>engine := e'\<rparr>)\<rparr>, glob := g\<rparr>"
    by blast
  then have "delivered s' = delivered s" "num_frames (self s') = num_frames (self s)"
    "decoded_samples (self s') = decoded_samples (self s)"
    by simp_all
  with assms(1) show ?thesis
    by (rule counted_same)
qed

lemma decode_loop_counted:
  assumes "decode_loop L st = Some (Inr st')"
  shows "counted st st'"
proof -
  have "counted st st' \<and> \<not> (0 < in_size st' \<and> 0 < out_size st')"
  proof (rule decode_loop_invariant [OF assms, where P = "counted st"])
    show "counted st st"
      by (rule counted_refl)
  qed (blast intro: counted_parse_step counted_send_step counted_receive_step
      counted_deliver)+
  then show ?thesis ..
qed

lemma scast_nonneg:
  assumes "0 \<le>s (w :: 32 word)"
  shows "(scast w :: 64 word) = of_nat (unat w)"
proof -
  have nn: "0 \<le> sint w"
    using assms by (simp add: word_sle_eq)
  have "sint w < 2 ^ (LENGTH(32) - 1)"
    by (rule sint_lt)
  then have lt: "sint w < 2 ^ LENGTH(32)"
    by simp
  have "uint w = take_bit LENGTH(32) (sint w)"
    by (rule uint_sint)
  also have "\<dots> = sint w"
    using nn lt by (rule take_bit_int_eq_self)
  finally have "(scast w :: 64 word) = word_of_int (uint w)"
    by (simp only: scast_eq)
  also have "\<dots> = ucast w"
    by (simp only: ucast_eq)
  also have "\<dots> = of_nat (unat w)"
    by (simp only: of_nat_unat)
  finally show ?thesis .
qed

lemma sum_scast_nonneg:
  assumes "list_all (\<lambda>f. 0 \<le>s nb_samples f) fs"
  shows "sum_list (map (\<lambda>f. scast (nb_samples f)) fs) = (of_nat (samples_of fs) :: 64 word)"
  using assms by (induction fs) (simp_all add: samples_of_def scast_nonneg)

lemma word_add_nat:
  fixes x :: "64 word"
  assumes "unat x + n < 2 ^ 64"
  shows "unat (x + of_nat n) = unat x + n" and "x \<le> x + of_nat n"
proof -
  have n: "unat (of_nat n :: 64 word) = n"
    using assms by (simp add: unat_of_nat)
  with assms show "unat (x + of_nat n) = unat x + n"
    by (simp add: unat_add_lem [THEN iffD1])
  then show "x \<le> x + of_nat n"
    by (simp add: word_le_nat_alt)
qed


lemma Decode_Inr:
  assumes "Decode L g s input isz osz output = Some (Inr (st, out, szs))"
  shows "decode_loop L \<lparr>self = s, glob = g, buf = input, in_size = isz, out_buf = [],
           out_size = osz, pkt = av_packet_alloc, delivered = []\<rparr> = Some (Inr st)"
proof (cases "decode_loop L \<lparr>self = s, glob = g, buf = input, in_size = isz, out_buf = [],
           out_size = osz, pkt = av_packet_alloc, delivered = []\<rparr>")
  case None
  with assms show ?thesis
    by (simp add: Decode_def)
next
  case (Some r)
  with assms show ?thesis
    by (cases r) (simp_all add: Decode_def)
qed

text \<open>
  Claim C9, as stated, fails where a counter wraps: the counters have a fixed width.
  A session that has decoded \<open>2 ^ 63 - 1\<close> frames of two samples holds
  \<open>decoded_samples = 2 ^ 64 - 2\<close>; the next frame brings it to 0.
\<close>

theorem Decode_counters_wrap_counterexample:
  "observe (Decode test_lib no_globals full_session [0] 1 16 job_output) =
     Some (Inr ([0, 1, 2, 3], 0, 0x8000000000000000, 1,
                \<lparr>p_mframe = Some \<lparr>mframe_num_frames = 0x8000000000000000\<rparr>\<rparr>, 0, 12)) \<and>
   decoded_samples full_session = 0xFFFFFFFFFFFFFFFE \<and> (0 :: u64) < 0xFFFFFFFFFFFFFFFE"
  by code_simp

text \<open>
  Claim C9, amended. For every \<open>Decode\<close> call that returns, if every block it
  delivered has a non-negative sample count and neither counter passes \<open>2 ^ 64\<close>,
  then \<open>num_frames\<close> and \<open>decoded_samples\<close> after the call are greater than or equal to
  their values before it: they have grown by the number of delivered blocks and by
  the sum of their sample counts.
\<close>

theorem Decode_counters_monotone:
  assumes run: "Decode L g s input isz osz output = Some (Inr (st, out, szs))"
    and nonneg: "list_all (\<lambda>f. 0 \<le>s nb_samples f) (delivered st)"
    and nf: "unat (num_frames s) + length (delivered st) < 2 ^ 64"
    and ds: "unat (decoded_samples s) + samples_of (delivered st) < 2 ^ 64"
  shows "num_frames s \<le> num_frames (self st) \<and>
         decoded_samples s \<le> decoded_samples (self st) \<and>
         unat (num_frames (self st)) = unat (num_frames s) + length (delivered st) \<and>
         unat (decoded_samples (self st)) = unat (decoded_samples s) + samples_of (delivered st)"
proof -
  from decode_loop_counted [OF Decode_Inr [OF run]]
  have n: "num_frames (self st) = num_frames s + of_nat (length (delivered st))"
    and d: "decoded_samples (self st) =
      decoded_samples s + sum_list (map (\<lambda>f. scast (nb_samples f)) (delivered st))"
    by (auto simp: counted_def)
  from d have d': "decoded_samples (self st) = decoded_samples s + of_nat (samples_of (delivered st))"
    by (simp only: sum_scast_nonneg [OF nonneg])
  show ?thesis
    unfolding n d' using word_add_nat [OF nf] word_add_nat [OF ds] by simp
qed

theorem Decode_counters_monotone_witness:
  "\<exists>st out szs.
     Decode test_lib no_globals used_session [1, 2, 3] 3 16 job_output = Some (Inr (st, out, szs)) \<and>
     list_all (\<lambda>f. 0 \<le>s nb_samples f) (delivered st) \<and>
     unat (num_frames used_session) + length (delivered st) < 2 ^ 64 \<and>
     unat (decoded_samples used_session) + samples_of (delivered st) < 2 ^ 64 \<and>
     num_frames used_session \<le> num_frames (self st) \<and>
     decoded_samples used_session \<le> decoded_samples (self st) \<and>
     unat (num_frames (self st)) = 4 \<and> unat (decoded_samples (self st)) = 8"
proof -
  have "observe_trace (Decode test_lib no_globals used_session [1, 2, 3] 3 16 job_output) =
      Some (Inr [2, 2, 2])"
    by code_simp
  then obtain r where r: "Decode test_lib no_globals used_session [1, 2, 3] 3 16 job_output = Some r"
    and m: "map_sum id (\<lambda>(st, out, szs). map nb_samples (delivered st)) r = Inr [2, 2, 2]"
    by (auto simp: observe_trace_def)
  from m obtain x where x: "r = Inr x"
    by (cases r) simp_all
  obtain st out szs where t: "x = (st, out, szs)"
    by (cases x)
  have run: "Decode test_lib no_globals used_session [1, 2, 3] 3 16 job_output =
      Some (Inr (st, out, szs))"
    and tr: "map nb_samples (delivered st) = [2, 2, 2]"
    using r m x t by simp_all
  have len: "length (delivered st) = 3"
    using tr by (metis length_map length_Cons list.size(3) numeral_3_eq_3)
  have "list_all (\<lambda>x. 0 \<le>s x) (map nb_samples (delivered st))"
    unfolding tr by (simp add: word_sle_eq)
  then have nonneg: "list_all (\<lambda>f. 0 \<le>s nb_samples f) (delivered st)"
    by (simp add: list_all_iff)
  have "samples_of (delivered st) = sum_list (map unat (map nb_samples (delivered st)))"
    by (simp add: samples_of_def comp_def)
  then have smp: "samples_of (delivered st) = 6"
    unfolding tr by simp
  have nf: "unat (num_frames used_session) + length (delivered st) < 2 ^ 64"
    and ds: "unat (decoded_samples used_session) + samples_of (delivered st) < 2 ^ 64"
    by (simp_all add: len smp used_session_def test_session_def)
  from Decode_counters_monotone [OF run nonneg nf ds]
  have "num_frames used_session \<le> num_frames (self st) \<and>
      decoded_samples used_session \<le> decoded_samples (self st) \<and>
      unat (num_frames (self st)) = 4 \<and> unat (decoded_samples (self st)) = 8"
    by (simp add: len smp used_session_def test_session_def)
  with run nonneg nf ds show ?thesis
    by blast
qed



subsection \<open>The process-wide conversion context\<close>





lemma forget_glob_update [simp]: "forget_glob (s\<lparr>glob := g\<rparr>) = forget_glob s"
  by (simp add: forget_glob_def)






















end
